theory Spec2Isabelle
  imports Complex_Main "HOL-Library.Sublist"
begin

section \<open>Python values used by the auto tapper\<close>

text \<open>
  The script computes with Python floats (screen fractions, polar coordinates, pacing
  intervals, clock readings).  Their rounding is not reproduced by exact arithmetic
  (\<^verbatim>\<open>int(90 * 0.7)\<close> is 62 in CPython), so the float type is a type parameter
  \<open>'f\<close> and every float operation of the source is a field of \<open>float_ops\<close>.
  Theorems hold for every choice of these operations unless they say otherwise.
\<close>

datatype py_error = ValueError | TypeError | IndexError | OverflowError | SystemExit int

record 'f float_ops =
  f_lit :: "rat \<Rightarrow> 'f"              \<comment> \<open>a float literal, given by its decimal value\<close>
  f_int :: "int \<Rightarrow> 'f"              \<comment> \<open>conversion of an int operand to float\<close>
  f_add :: "'f \<Rightarrow> 'f \<Rightarrow> 'f"
  f_sub :: "'f \<Rightarrow> 'f \<Rightarrow> 'f"
  f_mul :: "'f \<Rightarrow> 'f \<Rightarrow> 'f"
  f_div :: "'f \<Rightarrow> 'f \<Rightarrow> 'f"        \<comment> \<open>\<^verbatim>\<open>a / b\<close> with a float operand\<close>
  f_idiv :: "int \<Rightarrow> int \<Rightarrow> 'f"     \<comment> \<open>\<^verbatim>\<open>a / b\<close> on two ints\<close>
  f_floordiv :: "'f \<Rightarrow> 'f \<Rightarrow> 'f"   \<comment> \<open>\<^verbatim>\<open>a // b\<close>\<close>
  f_mod :: "'f \<Rightarrow> 'f \<Rightarrow> 'f"        \<comment> \<open>\<^verbatim>\<open>a % b\<close>\<close>
  f_cos :: "'f \<Rightarrow> 'f"
  f_sin :: "'f \<Rightarrow> 'f"
  f_radians :: "'f \<Rightarrow> 'f"
  f_trunc :: "'f \<Rightarrow> int"            \<comment> \<open>\<^verbatim>\<open>int(a)\<close>\<close>
  f_less :: "'f \<Rightarrow> 'f \<Rightarrow> bool"     \<comment> \<open>\<^verbatim>\<open>a < b\<close>\<close>
  f_le :: "'f \<Rightarrow> 'f \<Rightarrow> bool"       \<comment> \<open>\<^verbatim>\<open>a <= b\<close>\<close>
  f_nonzero :: "'f \<Rightarrow> bool"          \<comment> \<open>truth value of a float\<close>
  f_sleep :: "'f \<Rightarrow> py_error option"
    \<comment> \<open>what \<^verbatim>\<open>time.sleep(a)\<close> raises, if it raises\<close>
  f_completion :: "'f \<Rightarrow> 'f \<Rightarrow> py_error + string"
    \<comment> \<open>\<^verbatim>\<open>(datetime.now() + timedelta(seconds=a)).strftime('%H:%M:%S')\<close> when
        \<^verbatim>\<open>datetime.now()\<close> is the given instant, or what the sum raises\<close>

text \<open>\<^verbatim>\<open>range(start, stop, step)\<close> for a positive step.\<close>

definition py_range :: "int \<Rightarrow> int \<Rightarrow> int \<Rightarrow> int list" where
  "py_range start stop step =
     map (\<lambda>k. start + int k * step) [0 ..< nat ((stop - start + step - 1) div step)]"

text \<open>
  The random module.  \<^verbatim>\<open>randint(a, b)\<close> is \<^verbatim>\<open>a + _randbelow(b - a + 1)\<close> and raises
  ValueError on an empty range; the generator's raw draw is an input, reduced into the
  range.  \<^verbatim>\<open>shuffle\<close> is CPython's loop
  \<^verbatim>\<open>for i in reversed(range(1, len(x))): j = randbelow(i + 1); x[i], x[j] = x[j], x[i]\<close>.
\<close>

definition randbelow :: "nat \<Rightarrow> nat \<Rightarrow> nat" where
  "randbelow n raw = raw mod n"

definition randint :: "int \<Rightarrow> int \<Rightarrow> nat \<Rightarrow> py_error + int" where
  "randint a b raw =
     (if b < a then Inl ValueError else Inr (a + int (randbelow (nat (b - a + 1)) raw)))"

fun shuffle_loop :: "nat \<Rightarrow> (nat \<Rightarrow> nat) \<Rightarrow> 'a list \<Rightarrow> 'a list" where
  "shuffle_loop 0 draw xs = xs"
| "shuffle_loop (Suc k) draw xs =
     (let i = Suc k; j = randbelow (i + 1) (draw i)
      in shuffle_loop k draw (xs[i := xs ! j, j := xs ! i]))"

definition shuffle :: "(nat \<Rightarrow> nat) \<Rightarrow> 'a list \<Rightarrow> 'a list" where
  "shuffle draw xs = shuffle_loop (length xs - 1) draw xs"

text \<open>
  What the generator returns while a plan is built: for the k-th infill point the values
  of \<^verbatim>\<open>random.random()\<close> and \<^verbatim>\<open>random.uniform(0, 2 * math.pi)\<close>, and the raw draw of
  every step of the final shuffle.
\<close>

record 'f rng =
  infill_sample :: "nat \<Rightarrow> 'f \<times> 'f"
  shuffle_draw :: "nat \<Rightarrow> nat"

section \<open>The tapper object\<close>

type_synonym 'f tap_point = "int \<times> int \<times> 'f"

text \<open>
  The attributes of \<^verbatim>\<open>AutoTapper\<close>.  \<^verbatim>\<open>self.x\<close> and \<^verbatim>\<open>self.y\<close> are \<open>self_x\<close> and
  \<open>self_y\<close>.  The cursor is only ever assigned 0 or a remainder, so it is a \<open>nat\<close>.
\<close>

record 'f tapper =
  self_x :: "int option"
  self_y :: "int option"
  tap_interval :: 'f
  jitter :: int
  multi_tap :: bool
  total_taps :: "int option"
  running :: bool
  tap_count :: int
  start_time :: "'f option"
  tap_locations :: "'f tap_point list"
  current_location_index :: nat
  screen_width :: int
  screen_height :: int

text \<open>
  The reply of \<^verbatim>\<open>adb shell wm size\<close>: a size that parses, a failed call
  (CalledProcessError), or output whose parsing raises the given exception.
\<close>

datatype wm_size_reply = WmSize int int | WmFailed | WmUnparsable py_error

section \<open>Plan construction\<close>

text \<open>One ring loop of \<^verbatim>\<open>generate_tap_locations\<close>: a point per angle, at radius \<open>r\<close>.\<close>

definition ring :: "'f float_ops \<Rightarrow> int \<Rightarrow> int \<Rightarrow> 'f \<Rightarrow> 'f \<Rightarrow> int list \<Rightarrow> 'f tap_point list" where
  "ring F center_x center_y r rate angles =
     map (\<lambda>angle.
            let rad = f_radians F (f_int F angle)
            in (center_x + f_trunc F (f_mul F r (f_cos F rad)),
                center_y + f_trunc F (f_mul F r (f_sin F rad)),
                rate))
         angles"

definition infill_point :: "'f float_ops \<Rightarrow> int \<Rightarrow> int \<Rightarrow> int \<Rightarrow> 'f \<times> 'f \<Rightarrow> 'f tap_point" where
  "infill_point F center_x center_y radius smp =
     (let random_radius =
            f_mul F (f_int F radius)
              (f_add F (f_lit F (1/10)) (f_mul F (f_lit F (8/10)) (fst smp)));
          random_angle = snd smp
      in (center_x + f_trunc F (f_mul F random_radius (f_cos F random_angle)),
          center_y + f_trunc F (f_mul F random_radius (f_sin F random_angle)),
          f_lit F (7/1000)))"

definition center_point :: "'f float_ops \<Rightarrow> int \<Rightarrow> int \<Rightarrow> 'f tap_point list" where
  "center_point F center_x center_y = [(center_x, center_y, f_lit F (55/10000))]"

definition inner_ring :: "'f float_ops \<Rightarrow> int \<Rightarrow> int \<Rightarrow> int \<Rightarrow> 'f tap_point list" where
  "inner_ring F center_x center_y radius =
     ring F center_x center_y (f_mul F (f_int F radius) (f_lit F (4/10)))
       (f_lit F (6/1000)) (py_range 0 360 45)"

definition middle_ring :: "'f float_ops \<Rightarrow> int \<Rightarrow> int \<Rightarrow> int \<Rightarrow> 'f tap_point list" where
  "middle_ring F center_x center_y radius =
     ring F center_x center_y (f_mul F (f_int F radius) (f_lit F (7/10)))
       (f_lit F (7/1000)) (py_range 0 360 30)"

definition outer_ring :: "'f float_ops \<Rightarrow> int \<Rightarrow> int \<Rightarrow> int \<Rightarrow> 'f tap_point list" where
  "outer_ring F center_x center_y radius =
     ring F center_x center_y (f_int F radius) (f_lit F (8/1000)) (py_range 0 360 22)"

definition strategic_points :: "'f float_ops \<Rightarrow> int \<Rightarrow> int \<Rightarrow> int \<Rightarrow> 'f tap_point list" where
  "strategic_points F center_x center_y radius =
     ring F center_x center_y (f_mul F (f_int F radius) (f_lit F (85/100)))
       (f_lit F (65/10000)) [0, 90, 180, 270]"

definition random_points :: "'f float_ops \<Rightarrow> 'f rng \<Rightarrow> int \<Rightarrow> int \<Rightarrow> int \<Rightarrow> 'f tap_point list" where
  "random_points F R center_x center_y radius =
     map (\<lambda>k. infill_point F center_x center_y radius (infill_sample R k)) [0 ..< 4]"

text \<open>The list \<^verbatim>\<open>generate_tap_locations\<close> has built when it reaches the shuffle.\<close>

definition plan_before_shuffle :: "'f float_ops \<Rightarrow> 'f rng \<Rightarrow> int \<Rightarrow> int \<Rightarrow> 'f tap_point list" where
  "plan_before_shuffle F R width height =
     (let center_x = width div 2;
          center_y = f_trunc F (f_mul F (f_int F height) (f_lit F (6/10)));
          radius = f_trunc F (f_mul F (f_int F height) (f_lit F (20/100)))
      in center_point F center_x center_y
         @ inner_ring F center_x center_y radius
         @ middle_ring F center_x center_y radius
         @ outer_ring F center_x center_y radius
         @ strategic_points F center_x center_y radius
         @ random_points F R center_x center_y radius)"

definition generate_tap_locations :: "'f float_ops \<Rightarrow> 'f rng \<Rightarrow> 'f tapper \<Rightarrow> 'f tapper" where
  "generate_tap_locations F R s =
     s\<lparr>tap_locations :=
         shuffle (shuffle_draw R)
           (plan_before_shuffle F R (screen_width s) (screen_height s))\<rparr>"

text \<open>The nine points that \<^verbatim>\<open>get_screen_resolution\<close> writes over the plan.\<close>

definition cross_layout :: "'f float_ops \<Rightarrow> int \<Rightarrow> int \<Rightarrow> int \<Rightarrow> 'f tap_point list" where
  "cross_layout F base_x base_y radius =
     (let d = f_trunc F (f_mul F (f_int F radius) (f_lit F (7/10)))
      in [(base_x, base_y, f_lit F (8/1000)),
          (base_x, base_y - radius, f_lit F (9/1000)),
          (base_x + radius, base_y, f_lit F (8/1000)),
          (base_x, base_y + radius, f_lit F (9/1000)),
          (base_x - radius, base_y, f_lit F (8/1000)),
          (base_x + d, base_y + d, f_lit F (7/1000)),
          (base_x + d, base_y - d, f_lit F (7/1000)),
          (base_x - d, base_y + d, f_lit F (7/1000)),
          (base_x - d, base_y - d, f_lit F (7/1000))])"

definition get_screen_resolution ::
  "'f float_ops \<Rightarrow> 'f rng \<Rightarrow> wm_size_reply \<Rightarrow> 'f tapper \<Rightarrow> py_error + 'f tapper" where
  "get_screen_resolution F R reply s =
     (case reply of
        WmFailed \<Rightarrow> Inl (SystemExit 1)
      | WmUnparsable e \<Rightarrow> Inl e
      | WmSize width height \<Rightarrow>
          let s1 = s\<lparr>screen_width := width, screen_height := height\<rparr>;
              s2 = (if self_x s1 = None then s1\<lparr>self_x := Some (width div 2)\<rparr> else s1);
              s3 = (if self_y s2 = None then s2\<lparr>self_y := Some (height div 2)\<rparr> else s2);
              s4 = (if multi_tap s3 then generate_tap_locations F R s3 else s3)
          in Inr (case (self_x s4, self_y s4) of
                    (Some base_x, Some base_y) \<Rightarrow>
                      if multi_tap s4 \<and> tap_locations s4 \<noteq> []
                      then s4\<lparr>tap_locations :=
                               cross_layout F base_x base_y
                                 (f_trunc F (f_mul F (f_int F (screen_height s4))
                                                (f_lit F (20/100))))\<rparr>
                      else s4
                  | _ \<Rightarrow> s4))"

text \<open>\<^verbatim>\<open>AutoTapper.__init__\<close>; the resolution is queried only when a coordinate is missing.\<close>

definition init ::
  "'f float_ops \<Rightarrow> 'f rng \<Rightarrow> wm_size_reply \<Rightarrow> int option \<Rightarrow> int option \<Rightarrow> 'f \<Rightarrow> int \<Rightarrow> bool
     \<Rightarrow> int option \<Rightarrow> py_error + 'f tapper" where
  "init F R reply x y interval jit multi goal =
     (let s = \<lparr>self_x = x, self_y = y, tap_interval = interval, jitter = jit,
                multi_tap = multi, total_taps = goal, running = False, tap_count = 0,
                start_time = None, tap_locations = [], current_location_index = 0,
                screen_width = 0, screen_height = 0\<rparr>
      in if x = None \<or> y = None then get_screen_resolution F R reply s else Inr s)"

section \<open>Dispatch\<close>

text \<open>Truth value of an optional int: \<^verbatim>\<open>None\<close> and 0 are false.\<close>

definition truthy :: "int option \<Rightarrow> bool" where
  "truthy v = (case v of None \<Rightarrow> False | Some n \<Rightarrow> n \<noteq> 0)"

text \<open>
  \<^verbatim>\<open>get_next_tap_location\<close> returns its triple and the tapper with the cursor moved.  In
  single-point mode the triple holds \<^verbatim>\<open>self.x\<close> and \<^verbatim>\<open>self.y\<close> as they are.
\<close>

definition get_next_tap_location ::
  "'f tapper \<Rightarrow> py_error + ((int option \<times> int option \<times> 'f) \<times> 'f tapper)" where
  "get_next_tap_location s =
     (if \<not> multi_tap s \<or> tap_locations s = []
      then Inr ((self_x s, self_y s, tap_interval s), s)
      else if current_location_index s < length (tap_locations s)
      then (case tap_locations s ! current_location_index s of
              (lx, ly, lrate) \<Rightarrow>
                Inr ((Some lx, Some ly, lrate),
                     s\<lparr>current_location_index :=
                         (current_location_index s + 1) mod length (tap_locations s)\<rparr>))
      else Inl IndexError)"

text \<open>\<^verbatim>\<open>add_jitter\<close>: the draw is made first, then added; adding to \<^verbatim>\<open>None\<close> is a TypeError.\<close>

definition add_jitter :: "'f tapper \<Rightarrow> int option \<Rightarrow> nat \<Rightarrow> py_error + int" where
  "add_jitter s coord raw =
     (case randint (- jitter s) (jitter s) raw of
        Inl e \<Rightarrow> Inl e
      | Inr r \<Rightarrow> (case coord of None \<Rightarrow> Inl TypeError | Some c \<Rightarrow> Inr (c + r)))"

text \<open>\<^verbatim>\<open>str\<close> of an int, as the f-strings of \<^verbatim>\<open>display_stats\<close> print it.\<close>

fun str_nat :: "nat \<Rightarrow> string" where
  "str_nat n =
     (if n < 10 then [''0123456789'' ! n]
      else str_nat (n div 10) @ [''0123456789'' ! (n mod 10)])"

declare str_nat.simps [simp del]

definition str_int :: "int \<Rightarrow> string" where
  "str_int i = (if i < 0 then ''-'' @ str_nat (nat (- i)) else str_nat (nat i))"

text \<open>The block of \<^verbatim>\<open>display_stats\<close> that formats the time remaining.\<close>

definition time_str :: "'f float_ops \<Rightarrow> 'f \<Rightarrow> string" where
  "time_str F seconds_remaining =
     (if f_less F (f_int F 86400) seconds_remaining then
        let days = f_floordiv F seconds_remaining (f_int F 86400);
            hours = f_floordiv F (f_mod F seconds_remaining (f_int F 86400)) (f_int F 3600)
        in str_int (f_trunc F days) @ ''d '' @ str_int (f_trunc F hours) @ ''h''
      else if f_less F (f_int F 3600) seconds_remaining then
        let hours = f_floordiv F seconds_remaining (f_int F 3600);
            minutes = f_floordiv F (f_mod F seconds_remaining (f_int F 3600)) (f_int F 60)
        in str_int (f_trunc F hours) @ ''h '' @ str_int (f_trunc F minutes) @ ''m''
      else
        let minutes = f_floordiv F seconds_remaining (f_int F 60);
            seconds = f_mod F seconds_remaining (f_int F 60)
        in str_int (f_trunc F minutes) @ ''m '' @ str_int (f_trunc F seconds) @ ''s'')"

text \<open>
  What \<^verbatim>\<open>display_stats\<close> prints: the count, the rate and, with a goal and a positive
  rate, the remaining taps, the formatted time and the completion time.  \<open>now\<close> is the
  reading of \<^verbatim>\<open>time.time()\<close> and \<open>date\<close> the instant \<^verbatim>\<open>datetime.now()\<close> returns.
  The completion time is computed before the time is formatted, and what it raises
  (OverflowError for a remaining time beyond the range of \<^verbatim>\<open>timedelta\<close> or of
  \<^verbatim>\<open>datetime\<close>) leaves \<^verbatim>\<open>display_stats\<close>.
\<close>

record 'f stats =
  stat_taps :: int
  stat_rate :: 'f
  stat_remaining :: "(int \<times> string \<times> string) option"

definition display_stats ::
  "'f float_ops \<Rightarrow> 'f tapper \<Rightarrow> 'f \<Rightarrow> 'f \<Rightarrow> py_error + 'f stats" where
  "display_stats F s now date =
     (case start_time s of
        None \<Rightarrow> Inl TypeError
      | Some t0 \<Rightarrow>
          let elapsed = f_sub F now t0;
              taps_per_second =
                (if f_less F (f_int F 0) elapsed then f_div F (f_int F (tap_count s)) elapsed
                 else f_int F 0);
              basic = \<lparr>stat_taps = tap_count s, stat_rate = taps_per_second,
                       stat_remaining = None\<rparr>
          in (case total_taps s of
                None \<Rightarrow> Inr basic
              | Some goal \<Rightarrow>
                  if goal \<noteq> 0 then
                    let remaining_taps = max 0 (goal - tap_count s)
                    in if f_less F (f_int F 0) taps_per_second then
                         let seconds_remaining =
                               f_div F (f_int F remaining_taps) taps_per_second
                         in (case f_completion F date seconds_remaining of
                               Inl e \<Rightarrow> Inl e
                             | Inr completion \<Rightarrow>
                                 Inr (basic\<lparr>stat_remaining :=
                                        Some (remaining_taps,
                                              time_str F seconds_remaining,
                                              completion)\<rparr>))
                       else Inr basic
                  else Inr basic))"

text \<open>
  What the outside world does during one pass of the loop in \<^verbatim>\<open>start\<close>: whether
  \<^verbatim>\<open>adb shell input tap\<close> succeeds (when it does not, \<^verbatim>\<open>subprocess.run\<close> raises
  CalledProcessError, which \<^verbatim>\<open>send_tap\<close> catches), the raw draws of the two
  \<^verbatim>\<open>randint\<close> calls, the clock and the date as read by \<^verbatim>\<open>display_stats\<close>, the
  clock as read by the duration check, and whether SIGINT arrived (the handler installed by \<^verbatim>\<open>main\<close> calls
  \<^verbatim>\<open>stop\<close>, so the loop ends at its next test of \<^verbatim>\<open>running\<close>).
\<close>

record 'f cycle_event =
  tap_ok :: bool
  draw_x :: nat
  draw_y :: nat
  stats_clock :: 'f
  stats_date :: 'f
  check_clock :: 'f
  sigint :: bool

text \<open>What one pass does that can be observed.\<close>

record 'f cycle_out =
  tapped :: "int option \<times> int option \<times> 'f"   \<comment> \<open>the triple \<^verbatim>\<open>send_tap\<close> got from the cursor\<close>
  sent :: "int \<times> int"                         \<comment> \<open>the coordinates given to adb\<close>
  shown :: "'f stats option"                   \<comment> \<open>the statistics line, when printed\<close>
  slept :: 'f                                  \<comment> \<open>the argument of \<^verbatim>\<open>time.sleep\<close>\<close>

text \<open>
  \<^verbatim>\<open>send_tap\<close>.  An exception leaves with the tapper as it was when raised.  The result
  holds the tapper, the triple from the cursor, the coordinates sent and the statistics.
\<close>

definition send_tap ::
  "'f float_ops \<Rightarrow> 'f tapper \<Rightarrow> 'f cycle_event
     \<Rightarrow> (py_error \<times> 'f tapper)
         + ('f tapper \<times> (int option \<times> int option \<times> 'f) \<times> (int \<times> int) \<times> 'f stats option)" where
  "send_tap F s ev =
     (case get_next_tap_location s of
        Inl e \<Rightarrow> Inl (e, s)
      | Inr (loc, s1) \<Rightarrow>
          (case add_jitter s1 (fst loc) (draw_x ev) of
             Inl e \<Rightarrow> Inl (e, s1)
           | Inr x \<Rightarrow>
               (case add_jitter s1 (fst (snd loc)) (draw_y ev) of
                  Inl e \<Rightarrow> Inl (e, s1)
                | Inr y \<Rightarrow>
                    if tap_ok ev then
                      let s2 = s1\<lparr>tap_count := tap_count s1 + 1\<rparr>
                      in if tap_count s2 mod 200 = 0
                         then (case display_stats F s2 (stats_clock ev) (stats_date ev) of
                                 Inl e \<Rightarrow> Inl (e, s2)
                               | Inr st \<Rightarrow> Inr (s2, loc, (x, y), Some st))
                         else Inr (s2, loc, (x, y), None)
                    else Inr (s1, loc, (x, y), None))))"

text \<open>
  The body of the loop in \<^verbatim>\<open>start\<close>, up to and including \<^verbatim>\<open>time.sleep\<close>, which
  raises for an interval it does not accept (ValueError for a negative one): the tap has
  been sent and counted by then.
\<close>

definition cycle ::
  "'f float_ops \<Rightarrow> 'f tapper \<Rightarrow> 'f cycle_event
     \<Rightarrow> (py_error \<times> 'f tapper) + ('f tapper \<times> 'f cycle_out)" where
  "cycle F s ev =
     (case (if multi_tap s
            then (case get_next_tap_location s of
                    Inl e \<Rightarrow> Inl (e, s)
                  | Inr (loc, s1) \<Rightarrow> Inr (snd (snd loc), s1))
            else Inr (tap_interval s, s)) of
        Inl c \<Rightarrow> Inl c
      | Inr (current_interval, s1) \<Rightarrow>
          (case send_tap F s1 ev of
             Inl c \<Rightarrow> Inl c
           | Inr (s2, loc, xy, st) \<Rightarrow>
               (case f_sleep F current_interval of
                  Some e \<Rightarrow> Inl (e, s2)
                | None \<Rightarrow>
                    Inr (s2, \<lparr>tapped = loc, sent = xy, shown = st,
                              slept = current_interval\<rparr>))))"

section \<open>The run\<close>

text \<open>
  The reply of \<^verbatim>\<open>adb devices\<close>: its output, or a failed call.  The check wants the
  word \<^verbatim>\<open>device\<close> in the output and more than one newline.
\<close>

datatype adb_devices_reply = DevicesOutput string | DevicesFailed

definition check_adb_connection :: "adb_devices_reply \<Rightarrow> bool" where
  "check_adb_connection reply =
     (case reply of
        DevicesFailed \<Rightarrow> False
      | DevicesOutput result \<Rightarrow>
          if \<not> sublist ''device'' result \<or> count_list result (CHR 0x0A) \<le> 1 then False
          else True)"

definition stop :: "'f tapper \<Rightarrow> 'f tapper" where
  "stop s = s\<lparr>running := False\<rparr>"

text \<open>The two stop tests at the end of the loop body.\<close>

definition goal_reached :: "'f tapper \<Rightarrow> bool" where
  "goal_reached s =
     (case total_taps s of None \<Rightarrow> False | Some goal \<Rightarrow> goal \<noteq> 0 \<and> goal \<le> tap_count s)"

definition duration_elapsed :: "'f float_ops \<Rightarrow> 'f option \<Rightarrow> 'f \<Rightarrow> bool" where
  "duration_elapsed F end_time now =
     (case end_time of None \<Rightarrow> False | Some e \<Rightarrow> f_nonzero F e \<and> f_le F e now)"

text \<open>
  How the loop is left: by the goal test, by the duration test, because \<^verbatim>\<open>running\<close> is
  false at the head of the loop, or by an exception that \<^verbatim>\<open>start\<close> does not catch.
\<close>

datatype run_end = Completed | DurationExpired | Cancelled | Crashed py_error

text \<open>
  The loop of \<^verbatim>\<open>start\<close>, one event per pass.  The result is \<open>None\<close> when the events
  run out while the loop is still going: the loop has no bound of its own.
\<close>

fun run_loop ::
  "'f float_ops \<Rightarrow> 'f option \<Rightarrow> 'f tapper \<Rightarrow> 'f cycle_event list
     \<Rightarrow> (run_end \<times> 'f tapper \<times> 'f cycle_out list) option" where
  "run_loop F end_time s [] = (if running s then None else Some (Cancelled, s, []))"
| "run_loop F end_time s (ev # evs) =
     (if \<not> running s then Some (Cancelled, s, [])
      else case cycle F s ev of
             Inl (e, sc) \<Rightarrow> Some (Crashed e, sc, [])
           | Inr (s1, out) \<Rightarrow>
               let s2 = (if sigint ev then stop s1 else s1)
               in if goal_reached s2 then Some (Completed, s2, [out])
                  else if duration_elapsed F end_time (check_clock ev)
                  then Some (DurationExpired, s2, [out])
                  else map_option (\<lambda>(r, sf, outs). (r, sf, out # outs))
                         (run_loop F end_time s2 evs))"

text \<open>The session summary printed by the \<^verbatim>\<open>finally\<close> block.\<close>

record 'f summary =
  sum_taps :: int
  sum_progress :: "'f option"
  sum_elapsed :: 'f
  sum_rate :: 'f

definition finalize :: "'f float_ops \<Rightarrow> 'f tapper \<Rightarrow> 'f \<Rightarrow> 'f \<Rightarrow> 'f summary" where
  "finalize F s t0 now =
     (let elapsed = f_sub F now t0;
          taps_per_second =
            (if f_less F (f_int F 0) elapsed then f_div F (f_int F (tap_count s)) elapsed
             else f_int F 0)
      in \<lparr>sum_taps = tap_count s,
          sum_progress =
            (case total_taps s of
               None \<Rightarrow> None
             | Some goal \<Rightarrow>
                 if goal \<noteq> 0 then Some (f_mul F (f_idiv F (tap_count s) goal) (f_int F 100))
                 else None),
          sum_elapsed = elapsed,
          sum_rate = taps_per_second\<rparr>)"

text \<open>
  The surroundings of one call of \<^verbatim>\<open>start\<close>: the device list, the three clock readings
  outside the loop, and the events of the passes.
\<close>

record 'f run_env =
  devices :: adb_devices_reply
  clock_start :: 'f
  clock_deadline :: 'f
  events :: "'f cycle_event list"
  clock_summary :: 'f

datatype 'f run_report = NotStarted | Ended run_end "'f cycle_out list" "'f summary"

definition start ::
  "'f float_ops \<Rightarrow> 'f tapper \<Rightarrow> int option \<Rightarrow> 'f run_env \<Rightarrow> ('f run_report \<times> 'f tapper) option" where
  "start F s duration env =
     (if \<not> check_adb_connection (devices env) then Some (NotStarted, s)
      else
        let s1 = s\<lparr>running := True, tap_count := 0, start_time := Some (clock_start env)\<rparr>;
            end_time =
              (case duration of
                 None \<Rightarrow> None
               | Some d \<Rightarrow> Some (f_add F (clock_deadline env) (f_int F d)))
        in case run_loop F end_time s1 (events env) of
             None \<Rightarrow> None
           | Some (r, sf, outs) \<Rightarrow>
               Some (Ended r outs (finalize F sf (clock_start env) (clock_summary env)), sf))"

section \<open>The command line\<close>

record 'f args =
  arg_x :: "int option"
  arg_y :: "int option"
  arg_interval :: 'f
  arg_jitter :: int
  arg_duration :: "int option"
  arg_total_taps :: "int option"
  arg_single_point :: bool
  arg_karaa :: bool

text \<open>The coordinates \<^verbatim>\<open>main\<close> hands to the constructor.\<close>

definition main_coords ::
  "'f float_ops \<Rightarrow> 'f args \<Rightarrow> wm_size_reply \<Rightarrow> py_error + (int option \<times> int option)" where
  "main_coords F a reply =
     (if arg_karaa a \<and> \<not> truthy (arg_x a) \<and> \<not> truthy (arg_y a) then
        (case reply of
           WmSize width height \<Rightarrow>
             Inr (Some (width div 2),
                  Some (f_trunc F (f_mul F (f_int F height) (f_lit F (6/10)))))
         | WmFailed \<Rightarrow> Inr (arg_x a, arg_y a)
         | WmUnparsable e \<Rightarrow> Inl e)
      else Inr (arg_x a, arg_y a))"

text \<open>
  Everything outside the process during one execution of \<^verbatim>\<open>main\<close>: the replies to the
  resolution queries of \<^verbatim>\<open>main\<close> and of the constructor, the random generator while the
  plan is built, and the surroundings of the run.
\<close>

record 'f world =
  wm_main :: wm_size_reply
  wm_init :: wm_size_reply
  plan_rng :: "'f rng"
  run_world :: "'f run_env"

definition exit_status :: "py_error \<Rightarrow> int" where
  "exit_status e = (case e of SystemExit n \<Rightarrow> n | _ \<Rightarrow> 1)"

text \<open>
  \<^verbatim>\<open>main\<close>: the exit status of the process and, once a tapper exists, what \<^verbatim>\<open>start\<close>
  reported and the tapper it left.  A return from \<^verbatim>\<open>start\<close> ends the process with
  status 0, \<^verbatim>\<open>sys.exit(n)\<close> with n, an exception that nothing catches with 1.
\<close>

definition main ::
  "'f float_ops \<Rightarrow> 'f args \<Rightarrow> 'f world \<Rightarrow> (int \<times> ('f run_report \<times> 'f tapper) option) option" where
  "main F a w =
     (case main_coords F a (wm_main w) of
        Inl e \<Rightarrow> Some (exit_status e, None)
      | Inr (x_coord, y_coord) \<Rightarrow>
          (case init F (plan_rng w) (wm_init w) x_coord y_coord (arg_interval a) (arg_jitter a)
                  (\<not> arg_single_point a) (arg_total_taps a) of
             Inl e \<Rightarrow> Some (exit_status e, None)
           | Inr tapper \<Rightarrow>
               (case start F tapper (arg_duration a) (run_world w) of
                  None \<Rightarrow> None
                | Some (rep, sf) \<Rightarrow>
                    Some (case rep of Ended (Crashed e) outs sm \<Rightarrow> exit_status e | _ \<Rightarrow> 0,
                          Some (rep, sf)))))"

section \<open>Floats read as exact rationals\<close>

text \<open>
  One choice of the float operations, under which the model runs on concrete inputs:
  every float is the rational it denotes and the arithmetic is exact; \<^verbatim>\<open>//\<close> and \<^verbatim>\<open>%\<close>
  are floor division and its remainder, \<^verbatim>\<open>int\<close> truncates toward zero.  Cosine, sine
  and the degree conversion have no exact rational form and are short polynomial
  approximations; no result below depends on their values.  \<^verbatim>\<open>time.sleep\<close> raises
  ValueError below zero and OverflowError when the nanoseconds leave 64 bits;
  instants are seconds since the epoch, read in UTC, a \<^verbatim>\<open>timedelta\<close> holds fewer than
  1000000000 days and a \<^verbatim>\<open>datetime\<close> lies in the years 1 to 9999.
\<close>

definition pad2 :: "int \<Rightarrow> string" where
  "pad2 n = (if n < 10 then ''0'' @ str_int n else str_int n)"

definition clock_str :: "int \<Rightarrow> string" where
  "clock_str t =
     pad2 (t div 3600 mod 24) @ '':'' @ pad2 (t div 60 mod 60) @ '':'' @ pad2 (t mod 60)"

definition rat_ops :: "rat float_ops" where
  "rat_ops =
     \<lparr>f_lit = (\<lambda>q. q),
      f_int = of_int,
      f_add = (+),
      f_sub = (-),
      f_mul = (*),
      f_div = (/),
      f_idiv = (\<lambda>a b. of_int a / of_int b),
      f_floordiv = (\<lambda>a b. of_int \<lfloor>a / b\<rfloor>),
      f_mod = (\<lambda>a b. a - b * of_int \<lfloor>a / b\<rfloor>),
      f_cos = (\<lambda>a. 1 - a * a / 2 + a * a * a * a / 24),
      f_sin = (\<lambda>a. a - a * a * a / 6 + a * a * a * a * a / 120),
      f_radians = (\<lambda>d. d * (355 / 113) / 180),
      f_trunc = (\<lambda>a. if a < 0 then - \<lfloor>- a\<rfloor> else \<lfloor>a\<rfloor>),
      f_less = (<),
      f_le = (\<le>),
      f_nonzero = (\<lambda>a. a \<noteq> 0),
      f_sleep = (\<lambda>a. if 9223372036854775808 \<le> a * 1000000000
                          \<or> a * 1000000000 \<le> - 9223372036854775808
                       then Some OverflowError
                       else if a < 0 then Some ValueError else None),
      f_completion = (\<lambda>now a. if 86400000000000 \<le> \<bar>a\<bar>
                                 \<or> 253402300800 \<le> now + a \<or> now + a < - 62135596800
                              then Inl OverflowError
                              else Inr (clock_str \<lfloor>now + a\<rfloor>))\<rparr>"

section \<open>Auxiliary definitions for the statements\<close>

text \<open>Several passes of the loop body in a row, without the stop tests between them.\<close>

fun dispatch_cycles ::
  "'f float_ops \<Rightarrow> 'f tapper \<Rightarrow> 'f cycle_event list \<Rightarrow> (py_error \<times> 'f tapper) + 'f tapper" where
  "dispatch_cycles F s [] = Inr s"
| "dispatch_cycles F s (ev # evs) =
     (case cycle F s ev of Inl c \<Rightarrow> Inl c | Inr (s1, out) \<Rightarrow> dispatch_cycles F s1 evs)"

text \<open>
  The time remaining as the specification words it: above a day, whole days and the hours
  of the last day; above an hour, whole hours and the minutes of the last hour; else whole
  minutes and the seconds of the last minute, all by floor division.
\<close>

definition spec_time_str :: "rat \<Rightarrow> string" where
  "spec_time_str eta =
     (if 86400 < eta then
        str_int \<lfloor>eta / 86400\<rfloor> @ ''d '' @ str_int (\<lfloor>eta / 3600\<rfloor> mod 24) @ ''h''
      else if 3600 < eta then
        str_int \<lfloor>eta / 3600\<rfloor> @ ''h '' @ str_int (\<lfloor>eta / 60\<rfloor> mod 60) @ ''m''
      else
        str_int \<lfloor>eta / 60\<rfloor> @ ''m '' @ str_int (\<lfloor>eta\<rfloor> mod 60) @ ''s'')"

text \<open>
  Concrete inputs.  \<open>ex_tapper\<close> is the tapper that the constructor builds when it is
  given no coordinates, a goal of 50 taps and a 1080 x 1920 screen (\<open>ex_init\<close> below).
\<close>

definition ex_rng :: "rat rng" where
  "ex_rng = \<lparr>infill_sample = (\<lambda>k. (1/2, 1)), shuffle_draw = (\<lambda>i. 7 * i + 3)\<rparr>"

definition ex_tapper :: "rat tapper" where
  "ex_tapper =
     \<lparr>self_x = Some 540, self_y = Some 960, tap_interval = 8/1000, jitter = 8,
      multi_tap = True, total_taps = Some 50, running = False, tap_count = 0,
      start_time = None,
      tap_locations =
        [(540, 960, 8/1000), (540, 576, 9/1000), (924, 960, 8/1000),
         (540, 1344, 9/1000), (156, 960, 8/1000), (808, 1228, 7/1000),
         (808, 692, 7/1000), (272, 1228, 7/1000), (272, 692, 7/1000)],
      current_location_index = 0, screen_width = 1080, screen_height = 1920\<rparr>"

definition ex_event :: "rat cycle_event" where
  "ex_event = \<lparr>tap_ok = True, draw_x = 5, draw_y = 11, stats_clock = 1, stats_date = 1,
                check_clock = 1,
                sigint = False\<rparr>"

definition ex_failed_event :: "rat cycle_event" where
  "ex_failed_event = \<lparr>tap_ok = False, draw_x = 5, draw_y = 11, stats_clock = 1,
                       stats_date = 1, check_clock = 1, sigint = False\<rparr>"

text \<open>One round of passes over the nine points of \<open>ex_tapper\<close>, two of them with a failed tap.\<close>

definition ex_round :: "rat cycle_event list" where
  "ex_round = [ex_event, ex_failed_event, ex_event, ex_event, ex_failed_event, ex_event,
               ex_event, ex_event, ex_event]"

text \<open>
  The command line with no options, and a world in which the screen is 1080 x 1920 and
  \<^verbatim>\<open>adb devices\<close> lists no device.  \<open>ex_calibrated_tapper\<close> is the tapper that
  \<^verbatim>\<open>main\<close> constructs there.
\<close>

definition ex_args :: "rat args" where
  "ex_args = \<lparr>arg_x = None, arg_y = None, arg_interval = 8/1000, arg_jitter = 8,
               arg_duration = None, arg_total_taps = Some 50, arg_single_point = False,
               arg_karaa = True\<rparr>"

definition ex_no_device_world :: "rat world" where
  "ex_no_device_world =
     \<lparr>wm_main = WmSize 1080 1920, wm_init = WmSize 1080 1920, plan_rng = ex_rng,
      run_world = \<lparr>devices = DevicesOutput ''List of devices attached\<newline>'',
                   clock_start = 0, clock_deadline = 0, events = [ex_event],
                   clock_summary = 1\<rparr>\<rparr>"

definition ex_calibrated_tapper :: "rat tapper" where
  "ex_calibrated_tapper =
     \<lparr>self_x = Some 540, self_y = Some 1152, tap_interval = 8/1000, jitter = 8,
      multi_tap = True, total_taps = Some 50, running = False, tap_count = 0,
      start_time = None, tap_locations = [], current_location_index = 0,
      screen_width = 0, screen_height = 0\<rparr>"



text \<open>
  What \<^verbatim>\<open>adb devices\<close> prints with one device attached, a pass during which SIGINT
  arrives, a world with that device in which the second pass is interrupted, and the
  surroundings of a run of fifty passes whose taps all succeed.
\<close>

definition ex_device_list :: string where
  "ex_device_list =
     ''List of devices attached'' @ [CHR 0x0A] @ ''emulator-5554'' @ [CHR 0x09] @ ''device''
       @ [CHR 0x0A, CHR 0x0A]"

definition ex_sigint_event :: "rat cycle_event" where
  "ex_sigint_event = \<lparr>tap_ok = True, draw_x = 5, draw_y = 11, stats_clock = 1,
                       stats_date = 1, check_clock = 1, sigint = True\<rparr>"

definition ex_world :: "rat world" where
  "ex_world =
     \<lparr>wm_main = WmSize 1080 1920, wm_init = WmFailed, plan_rng = ex_rng,
      run_world = \<lparr>devices = DevicesOutput ex_device_list, clock_start = 1000,
                   clock_deadline = 1000, events = [ex_event, ex_sigint_event, ex_event],
                   clock_summary = 1001\<rparr>\<rparr>"


text \<open>What \<^verbatim>\<open>main\<close> does in \<open>ex_world\<close> with no options: each pass, and the tapper left.\<close>

definition ex_out :: "rat cycle_out" where
  "ex_out = \<lparr>tapped = (Some 540, Some 1152, 8/1000), sent = (537, 1155), shown = None,
              slept = 8/1000\<rparr>"

definition ex_interrupted_tapper :: "rat tapper" where
  "ex_interrupted_tapper =
     \<lparr>self_x = Some 540, self_y = Some 1152, tap_interval = 8/1000, jitter = 8,
      multi_tap = True, total_taps = Some 50, running = False, tap_count = 2,
      start_time = Some 1000, tap_locations = [], current_location_index = 0,
      screen_width = 0, screen_height = 0\<rparr>"


section \<open>Auxiliary facts\<close>

lemma length_shuffle_loop: "length (shuffle_loop k draw xs) = length xs"
  by (induction k arbitrary: xs) (simp_all add: Let_def)

lemma length_shuffle: "length (shuffle draw xs) = length xs"
  by (simp add: shuffle_def length_shuffle_loop)

lemma length_ring: "length (ring F cx cy r rate angles) = length angles"
  by (simp add: ring_def)

lemma length_py_range: "length (py_range lo hi step) = nat ((hi - lo + step - 1) div step)"
  by (simp add: py_range_def)

lemma get_next_single:
  "\<not> multi_tap s \<or> tap_locations s = [] \<Longrightarrow>
   get_next_tap_location s = Inr ((self_x s, self_y s, tap_interval s), s)"
  by (auto simp: get_next_tap_location_def)

lemma get_next_multi:
  assumes "multi_tap s" "tap_locations s \<noteq> []"
      and "current_location_index s < length (tap_locations s)"
  shows "get_next_tap_location s =
         Inr ((Some (fst (tap_locations s ! current_location_index s)),
               Some (fst (snd (tap_locations s ! current_location_index s))),
               snd (snd (tap_locations s ! current_location_index s))),
              s\<lparr>current_location_index :=
                  (current_location_index s + 1) mod length (tap_locations s)\<rparr>)"
  using assms by (simp add: get_next_tap_location_def split: prod.splits)

lemma send_tap_Inr:
  assumes "send_tap F s ev = Inr (s', loc, xy, st)"
  shows "\<exists>s1. get_next_tap_location s = Inr (loc, s1)
           \<and> add_jitter s1 (fst loc) (draw_x ev) = Inr (fst xy)
           \<and> add_jitter s1 (fst (snd loc)) (draw_y ev) = Inr (snd xy)
           \<and> s' = (if tap_ok ev then s1\<lparr>tap_count := tap_count s1 + 1\<rparr> else s1)"
  using assms
  by (auto simp: send_tap_def Let_def split: sum.splits if_splits prod.splits)

lemma get_next_frame:
  "get_next_tap_location s = Inr (loc, s1) \<Longrightarrow> \<exists>k. s1 = s\<lparr>current_location_index := k\<rparr>"
proof (cases "\<not> multi_tap s \<or> tap_locations s = []")
  case True
  assume "get_next_tap_location s = Inr (loc, s1)"
  with True have "s1 = s" by (simp add: get_next_single)
  then have "s1 = s\<lparr>current_location_index := current_location_index s\<rparr>" by simp
  then show ?thesis ..
next
  case False
  assume "get_next_tap_location s = Inr (loc, s1)"
  with False show ?thesis
    by (auto simp: get_next_tap_location_def split: if_splits prod.splits)
qed




lemma get_next_fields:
  assumes "get_next_tap_location s = Inr (loc, s1)"
  shows "tap_locations s1 = tap_locations s" "multi_tap s1 = multi_tap s"
    "jitter s1 = jitter s" "tap_count s1 = tap_count s" "self_x s1 = self_x s"
    "self_y s1 = self_y s" "tap_interval s1 = tap_interval s" "start_time s1 = start_time s"
    "total_taps s1 = total_taps s" "running s1 = running s"
  using get_next_frame[OF assms] by auto

lemma send_tap_fields:
  assumes "send_tap F s ev = Inr (s', loc, xy, st)"
  shows "tap_locations s' = tap_locations s" "multi_tap s' = multi_tap s"
    "jitter s' = jitter s" "self_x s' = self_x s"
    "self_y s' = self_y s" "tap_interval s' = tap_interval s" "start_time s' = start_time s"
    "total_taps s' = total_taps s" "running s' = running s"
    "tap_count s' = tap_count s + (if tap_ok ev then 1 else 0)"
proof -
  from send_tap_Inr[OF assms] obtain s1 where
    g: "get_next_tap_location s = Inr (loc, s1)"
    and e: "s' = (if tap_ok ev then s1\<lparr>tap_count := tap_count s1 + 1\<rparr> else s1)"
    by blast
  note f = get_next_fields[OF g]
  show "tap_locations s' = tap_locations s" "multi_tap s' = multi_tap s"
    "jitter s' = jitter s" "self_x s' = self_x s"
    "self_y s' = self_y s" "tap_interval s' = tap_interval s" "start_time s' = start_time s"
    "total_taps s' = total_taps s" "running s' = running s"
    "tap_count s' = tap_count s + (if tap_ok ev then 1 else 0)"
    by (simp_all add: e f)
qed

lemma cycle_cases:
  assumes "cycle F s ev = Inr (s', out)"
  obtains (single) st where "\<not> multi_tap s"
      "send_tap F s ev = Inr (s', tapped out, sent out, st)" "slept out = tap_interval s"
      "f_sleep F (tap_interval s) = None"
  | (multi) loc0 s0 st where "multi_tap s" "get_next_tap_location s = Inr (loc0, s0)"
      "send_tap F s0 ev = Inr (s', tapped out, sent out, st)" "slept out = snd (snd loc0)"
      "f_sleep F (snd (snd loc0)) = None"
proof (cases "multi_tap s")
  case False
  with assms obtain st where
    "send_tap F s ev = Inr (s', tapped out, sent out, st)" "slept out = tap_interval s"
    "f_sleep F (tap_interval s) = None"
    by (auto simp: cycle_def split: sum.splits option.splits)
  with False show ?thesis by (rule single)
next
  case True
  with assms obtain loc0 s0 st where "get_next_tap_location s = Inr (loc0, s0)"
    "send_tap F s0 ev = Inr (s', tapped out, sent out, st)" "slept out = snd (snd loc0)"
    "f_sleep F (snd (snd loc0)) = None"
    by (auto simp: cycle_def split: sum.splits option.splits)
  with True show ?thesis by (rule multi)
qed

lemma cycle_fields_conj:
  assumes "cycle F s ev = Inr (s', out)"
  shows "tap_locations s' = tap_locations s \<and> multi_tap s' = multi_tap s \<and>
    jitter s' = jitter s \<and> self_x s' = self_x s \<and>
    self_y s' = self_y s \<and> tap_interval s' = tap_interval s \<and> start_time s' = start_time s \<and>
    total_taps s' = total_taps s \<and> running s' = running s \<and>
    tap_count s' = tap_count s + (if tap_ok ev then 1 else 0)"
  using assms
proof (cases rule: cycle_cases)
  case (single st)
  show ?thesis
    using send_tap_fields[OF single(2)] by simp
next
  case (multi loc0 s0 st)
  show ?thesis
    using send_tap_fields[OF multi(3)] get_next_fields[OF multi(2)] by simp
qed

lemma cycle_fields:
  assumes "cycle F s ev = Inr (s', out)"
  shows "tap_locations s' = tap_locations s" "multi_tap s' = multi_tap s"
    "jitter s' = jitter s" "self_x s' = self_x s"
    "self_y s' = self_y s" "tap_interval s' = tap_interval s" "start_time s' = start_time s"
    "total_taps s' = total_taps s" "running s' = running s"
    "tap_count s' = tap_count s + (if tap_ok ev then 1 else 0)"
  using cycle_fields_conj[OF assms] by simp_all

lemma cycle_multi_conj:
  assumes m: "multi_tap s" and ne: "tap_locations s \<noteq> []"
      and c: "current_location_index s < length (tap_locations s)"
      and run: "cycle F s ev = Inr (s', out)"
  shows "slept out = snd (snd (tap_locations s ! current_location_index s)) \<and>
    tapped out =
           (Some (fst (tap_locations s ! ((current_location_index s + 1) mod length (tap_locations s)))),
            Some (fst (snd (tap_locations s ! ((current_location_index s + 1) mod length (tap_locations s))))),
            snd (snd (tap_locations s ! ((current_location_index s + 1) mod length (tap_locations s))))) \<and>
    current_location_index s' = (current_location_index s + 2) mod length (tap_locations s)"
  using run
proof (cases rule: cycle_cases)
  case (single st)
  with m show ?thesis by simp
next
  case (multi loc0 s0 st)
  let ?n = "length (tap_locations s)"
  let ?c = "current_location_index s"
  have n: "0 < ?n" using ne by simp
  from multi(2) get_next_multi[OF m ne c]
  have loc0: "snd (snd loc0) = snd (snd (tap_locations s ! ?c))"
    and c0: "current_location_index s0 = (?c + 1) mod ?n"
    by auto
  note f0 = get_next_fields[OF multi(2)]
  have c0': "current_location_index s0 < length (tap_locations s0)"
    using c0 n f0(1) by simp
  from send_tap_Inr[OF multi(3)] obtain s1 where
    g1: "get_next_tap_location s0 = Inr (tapped out, s1)"
    and e: "s' = (if tap_ok ev then s1\<lparr>tap_count := tap_count s1 + 1\<rparr> else s1)"
    by blast
  from g1 get_next_multi[of s0] m ne c0' f0(1,2)
  have t: "tapped out = (Some (fst (tap_locations s0 ! current_location_index s0)),
               Some (fst (snd (tap_locations s0 ! current_location_index s0))),
               snd (snd (tap_locations s0 ! current_location_index s0)))"
    and c1: "current_location_index s1 = (current_location_index s0 + 1) mod length (tap_locations s0)"
    by auto
  have "current_location_index s' = ((?c + 1) mod ?n + 1) mod ?n"
    using e c1 c0 f0(1) by (simp split: if_splits)
  also have "\<dots> = (?c + 2) mod ?n"
    by (simp add: mod_Suc_eq)
  finally have cur: "current_location_index s' = (?c + 2) mod ?n" .
  show ?thesis
    using multi(4) loc0 t c0 f0(1) cur by simp
qed

lemma floor_rat_numeral [simp]:
  "\<lfloor>numeral a / numeral b :: rat\<rfloor> = numeral a div numeral b"
  using floor_divide_of_int_eq[of "numeral a" "numeral b", where ?'a = rat] by simp

lemma sleep_rat:
  "0 \<le> a \<Longrightarrow> a * 1000000000 < 9223372036854775808 \<Longrightarrow> f_sleep rat_ops a = None"
  by (simp add: rat_ops_def)

lemmas run_defs = cycle_def get_next_tap_location_def send_tap_def add_jitter_def randint_def
  randbelow_def Let_def sleep_rat

lemma ex_cycle:
  "cycle rat_ops ex_tapper ex_event =
     Inr (ex_tapper\<lparr>current_location_index := 2, tap_count := 1\<rparr>,
          \<lparr>tapped = (Some 540, Some 576, 9/1000), sent = (537, 579), shown = None,
           slept = 8/1000\<rparr>)"
  by (simp add: run_defs ex_tapper_def ex_event_def)

lemma ex_failed_cycle:
  "cycle rat_ops ex_tapper ex_failed_event =
     Inr (ex_tapper\<lparr>current_location_index := 2\<rparr>,
          \<lparr>tapped = (Some 540, Some 576, 9/1000), sent = (537, 579), shown = None,
           slept = 8/1000\<rparr>)"
  by (simp add: run_defs ex_tapper_def ex_failed_event_def)

lemma ex_negative_interval_cycle:
  "cycle rat_ops (ex_calibrated_tapper\<lparr>tap_interval := - 1\<rparr>) ex_event =
     Inl (ValueError, ex_calibrated_tapper\<lparr>tap_interval := - 1, tap_count := 1\<rparr>)"
  by (simp add: cycle_def get_next_tap_location_def send_tap_def add_jitter_def randint_def
        randbelow_def Let_def ex_calibrated_tapper_def ex_event_def rat_ops_def)

lemma ex_stats_overflow:
  "display_stats rat_ops
     (ex_tapper\<lparr>total_taps := Some 100000000000000, tap_count := 200,
                start_time := Some 1000\<rparr>) 1001 1700000000 = Inl OverflowError"
  by (simp add: display_stats_def Let_def ex_tapper_def rat_ops_def)

lemma ex_stats_shown:
  "display_stats rat_ops
     (ex_tapper\<lparr>total_taps := Some 1000, tap_count := 200, start_time := Some 1000\<rparr>)
     1002 86400 =
   Inr \<lparr>stat_taps = 200, stat_rate = 100,
        stat_remaining = Some (800, ''0m 8s'', ''00:00:08'')\<rparr>"
  by (simp add: display_stats_def Let_def ex_tapper_def rat_ops_def time_str_def
        clock_str_def pad2_def str_int_def str_nat.simps)

lemma ex_init:
  "init rat_ops ex_rng (WmSize 1080 1920) None None (8/1000) 8 True (Some 50) = Inr ex_tapper"
  by (simp add: init_def get_screen_resolution_def generate_tap_locations_def Let_def
       length_shuffle plan_before_shuffle_def center_point_def cross_layout_def ex_tapper_def
       rat_ops_def flip: length_0_conv)

lemma add_jitter_Some:
  "0 \<le> jitter s \<Longrightarrow>
   add_jitter s (Some c) raw = Inr (c - jitter s + int (raw mod nat (2 * jitter s + 1)))"
  by (simp add: add_jitter_def randint_def randbelow_def)

lemma add_jitter_bounds:
  assumes "add_jitter s (Some c) raw = Inr v"
  shows "c - jitter s \<le> v \<and> v \<le> c + jitter s"
proof -
  from assms have j: "0 \<le> jitter s"
    by (simp add: add_jitter_def randint_def split: if_splits)
  define n where "n = nat (2 * jitter s + 1)"
  define k where "k = int (raw mod n)"
  have n: "int n = 2 * jitter s + 1" "0 < n"
    using j by (simp_all add: n_def)
  have "raw mod n < n" using n(2) by simp
  then have "k < int n" by (simp add: k_def)
  then have k: "0 \<le> k" "k \<le> 2 * jitter s"
    using n(1) by (simp_all add: k_def)
  from assms j have "v = c - jitter s + k"
    by (simp add: add_jitter_Some k_def n_def)
  with k show ?thesis by simp
qed

lemma add_jitter_Inr_Some:
  "add_jitter s coord raw = Inr v \<Longrightarrow> \<exists>c. coord = Some c"
  by (auto simp: add_jitter_def split: sum.splits option.splits)

lemma add_jitter_same_radius:
  "jitter s1 = jitter s \<Longrightarrow> add_jitter s1 coord raw = add_jitter s coord raw"
  by (simp add: add_jitter_def)

lemma send_tap_sent:
  assumes "send_tap F s ev = Inr (s', loc, xy, st)"
  shows "add_jitter s (fst loc) (draw_x ev) = Inr (fst xy)
       \<and> add_jitter s (fst (snd loc)) (draw_y ev) = Inr (snd xy)"
proof -
  from send_tap_Inr[OF assms] obtain s1 where
    g: "get_next_tap_location s = Inr (loc, s1)"
    and a: "add_jitter s1 (fst loc) (draw_x ev) = Inr (fst xy)"
    and b: "add_jitter s1 (fst (snd loc)) (draw_y ev) = Inr (snd xy)"
    by blast
  from a b show ?thesis
    by (simp add: add_jitter_same_radius[OF get_next_fields(3)[OF g]])
qed

lemma cycle_sent:
  assumes "cycle F s ev = Inr (s', out)"
  shows "add_jitter s (fst (tapped out)) (draw_x ev) = Inr (fst (sent out))
       \<and> add_jitter s (fst (snd (tapped out))) (draw_y ev) = Inr (snd (sent out))"
  using assms
proof (cases rule: cycle_cases)
  case (single st)
  from send_tap_sent[OF single(2)] show ?thesis .
next
  case (multi loc0 s0 st)
  from send_tap_sent[OF multi(3)] show ?thesis
    by (simp add: add_jitter_same_radius[OF get_next_fields(3)[OF multi(2)]])
qed



lemma dispatch_cycles_cursor:
  assumes "multi_tap s" and "tap_locations s \<noteq> []"
      and "current_location_index s < length (tap_locations s)"
      and "dispatch_cycles F s evs = Inr s'"
  shows "current_location_index s' =
           (current_location_index s + 2 * length evs) mod length (tap_locations s)
         \<and> tap_locations s' = tap_locations s"
  using assms
proof (induction evs arbitrary: s)
  case Nil
  then show ?case by simp
next
  case (Cons ev evs)
  from Cons.prems(4) obtain s1 out where
    run: "cycle F s ev = Inr (s1, out)" and rest: "dispatch_cycles F s1 evs = Inr s'"
    by (auto split: sum.splits)
  note f = cycle_fields[OF run]
  from cycle_multi_conj[OF Cons.prems(1-3) run]
  have c1: "current_location_index s1 =
              (current_location_index s + 2) mod length (tap_locations s)"
    by simp
  have n: "0 < length (tap_locations s)" using Cons.prems(2) by simp
  have "current_location_index s' =
           (current_location_index s1 + 2 * length evs) mod length (tap_locations s1)
         \<and> tap_locations s' = tap_locations s1"
    by (rule Cons.IH[OF _ _ _ rest]) (use f Cons.prems c1 n in simp_all)
  then show ?case
    using f(1) c1 by (simp add: mod_add_left_eq add.assoc)
qed

lemma ex_round_run:
  "dispatch_cycles rat_ops ex_tapper ex_round = Inr (ex_tapper\<lparr>tap_count := 7\<rparr>)"
  by (simp add: ex_round_def run_defs ex_tapper_def ex_event_def ex_failed_event_def)

lemma length_plan_before_shuffle: "length (plan_before_shuffle F R w h) = 46"
  by (simp add: center_point_def inner_ring_def middle_ring_def outer_ring_def
        strategic_points_def random_points_def plan_before_shuffle_def
        length_ring length_py_range Let_def)

lemma generate_tap_locations_nonempty: "tap_locations (generate_tap_locations F R s) \<noteq> []"
proof -
  have "length (tap_locations (generate_tap_locations F R s)) = 46"
    by (simp add: generate_tap_locations_def length_shuffle length_plan_before_shuffle)
  then show ?thesis by auto
qed

lemma generate_tap_locations_fields:
  "self_x (generate_tap_locations F R s) = self_x s"
  "self_y (generate_tap_locations F R s) = self_y s"
  "multi_tap (generate_tap_locations F R s) = multi_tap s"
  "screen_height (generate_tap_locations F R s) = screen_height s"
  "tap_count (generate_tap_locations F R s) = tap_count s"
  "current_location_index (generate_tap_locations F R s) = current_location_index s"
  "tap_interval (generate_tap_locations F R s) = tap_interval s"
  by (simp_all add: generate_tap_locations_def)

lemma get_screen_resolution_multi:
  assumes "multi_tap s"
  shows "\<exists>s'. get_screen_resolution F R (WmSize w h) s = Inr s'
          \<and> tap_locations s' =
              cross_layout F (case self_x s of None \<Rightarrow> w div 2 | Some v \<Rightarrow> v)
                (case self_y s of None \<Rightarrow> h div 2 | Some v \<Rightarrow> v)
                (f_trunc F (f_mul F (f_int F h) (f_lit F (20/100))))
          \<and> tap_count s' = tap_count s
          \<and> current_location_index s' = current_location_index s"
  using assms
  by (cases "self_x s"; cases "self_y s")
     (simp_all add: get_screen_resolution_def Let_def generate_tap_locations_nonempty
        generate_tap_locations_fields)

lemma get_screen_resolution_fresh:
  assumes "get_screen_resolution F R reply s = Inr s'"
  shows "tap_count s' = tap_count s \<and> current_location_index s' = current_location_index s"
  using assms
  by (cases reply; cases "self_x s"; cases "self_y s"; cases "multi_tap s")
     (auto simp: get_screen_resolution_def Let_def generate_tap_locations_nonempty
        generate_tap_locations_fields split: if_splits)

lemma init_explicit:
  "init F R reply (Some x) (Some y) iv j m g =
     Inr \<lparr>self_x = Some x, self_y = Some y, tap_interval = iv, jitter = j,
          multi_tap = m, total_taps = g, running = False, tap_count = 0,
          start_time = None, tap_locations = [], current_location_index = 0,
          screen_width = 0, screen_height = 0\<rparr>"
  by (simp add: init_def)

lemma init_fresh:
  assumes "init F R reply x y iv j m g = Inr t"
  shows "tap_count t = 0 \<and> current_location_index t = 0"
proof (cases "x = None \<or> y = None")
  case True
  with assms get_screen_resolution_fresh show ?thesis
    by (fastforce simp: init_def Let_def)
next
  case False
  then obtain x' y' where "x = Some x'" "y = Some y'" by auto
  with assms show ?thesis by (auto simp: init_explicit)
qed

lemma ex_no_device: "\<not> check_adb_connection (devices (run_world ex_no_device_world))"
  by (simp add: check_adb_connection_def ex_no_device_world_def)

lemma ex_main_coords:
  "main_coords rat_ops ex_args (wm_main ex_no_device_world) = Inr (Some 540, Some 1152)"
  by (simp add: main_coords_def ex_args_def ex_no_device_world_def truthy_def rat_ops_def)

lemma ex_main_init:
  "init rat_ops (plan_rng ex_no_device_world) (wm_init ex_no_device_world) (Some 540)
     (Some 1152) (arg_interval ex_args) (arg_jitter ex_args) (\<not> arg_single_point ex_args)
     (arg_total_taps ex_args) = Inr ex_calibrated_tapper"
  by (simp add: init_explicit ex_args_def ex_calibrated_tapper_def)

lemma floor_div_int_rat:
  fixes x :: rat
  assumes n: "0 < n"
  shows "\<lfloor>x / of_int n\<rfloor> = \<lfloor>x\<rfloor> div n"
proof (rule floor_unique)
  define k where "k = \<lfloor>x\<rfloor>"
  define q where "q = k div n"
  define r where "r = k mod n"
  have k: "k = n * q + r" by (simp add: q_def r_def)
  have r: "0 \<le> r" "r < n" using n by (simp_all add: r_def)
  have n': "(0::rat) < of_int n" using n by simp
  have lo: "of_int k \<le> x" and hi: "x < of_int k + 1"
    using floor_correct[of x] by (simp_all add: k_def)
  have "of_int (n * q) \<le> (of_int k :: rat)"
    using k r(1) by (simp only: of_int_le_iff)
  with lo have "of_int n * of_int q \<le> x" by simp
  then show "of_int (\<lfloor>x\<rfloor> div n) \<le> x / of_int n"
    using n' by (simp add: pos_le_divide_eq q_def k_def mult.commute)
  have "k + 1 \<le> n * (q + 1)" using k r(2) by (simp add: algebra_simps)
  then have "(of_int (k + 1) :: rat) \<le> of_int (n * (q + 1))"
    by (simp only: of_int_le_iff)
  with hi have "x < of_int n * (of_int q + 1)" by simp
  then show "x / of_int n < of_int (\<lfloor>x\<rfloor> div n) + 1"
    using n' by (simp add: pos_divide_less_eq q_def k_def mult.commute)
qed

lemma floor_mod_part:
  fixes s d :: rat
  assumes n: "0 < n" and d: "0 < d"
  shows "\<lfloor>(s - (d * of_int n) * of_int \<lfloor>s / (d * of_int n)\<rfloor>) / d\<rfloor> = \<lfloor>s / d\<rfloor> mod n"
proof -
  have q: "\<lfloor>s / (d * of_int n)\<rfloor> = \<lfloor>s / d\<rfloor> div n"
    using floor_div_int_rat[OF n, of "s / d"] by (simp add: divide_divide_eq_left)
  have "(s - (d * of_int n) * of_int (\<lfloor>s / d\<rfloor> div n)) / d
          = s / d - of_int (n * (\<lfloor>s / d\<rfloor> div n))"
    using d by (simp add: diff_divide_distrib)
  then have "\<lfloor>(s - (d * of_int n) * of_int (\<lfloor>s / d\<rfloor> div n)) / d\<rfloor>
          = \<lfloor>s / d\<rfloor> - n * (\<lfloor>s / d\<rfloor> div n)"
    by (simp only: floor_diff_of_int)
  also have "\<dots> = \<lfloor>s / d\<rfloor> mod n"
    by (simp add: minus_mult_div_eq_mod)
  finally show ?thesis by (simp only: q)
qed

lemma trunc_rat_nonneg: "0 \<le> a \<Longrightarrow> f_trunc rat_ops a = \<lfloor>a\<rfloor>"
  by (simp add: rat_ops_def)

lemma trunc_rat_of_int: "f_trunc rat_ops (of_int k) = k"
  by (simp add: rat_ops_def)

lemma hours_of_day: "\<lfloor>(s - 86400 * of_int \<lfloor>s / 86400\<rfloor>) / 3600\<rfloor> = \<lfloor>s / 3600\<rfloor> mod 24"
  for s :: rat
  using floor_mod_part[of 24 3600 s] by simp

lemma minutes_of_hour: "\<lfloor>(s - 3600 * of_int \<lfloor>s / 3600\<rfloor>) / 60\<rfloor> = \<lfloor>s / 60\<rfloor> mod 60"
  for s :: rat
  using floor_mod_part[of 60 60 s] by simp

lemma seconds_of_minute: "\<lfloor>s - 60 * of_int \<lfloor>s / 60\<rfloor>\<rfloor> = \<lfloor>s\<rfloor> mod 60"
  for s :: rat
  using floor_mod_part[of 60 1 s] by simp

lemma seconds_nonneg: "0 \<le> s - 60 * of_int \<lfloor>s / 60\<rfloor>" for s :: rat
proof -
  have "of_int \<lfloor>s / 60\<rfloor> \<le> s / 60" by (rule of_int_floor_le)
  then show ?thesis by simp
qed

lemma time_str_rat:
  "time_str rat_ops s = spec_time_str s"
proof -
  have f: "f_floordiv rat_ops a b = of_int \<lfloor>a / b\<rfloor>"
    "f_mod rat_ops a b = a - b * of_int \<lfloor>a / b\<rfloor>"
    "f_less rat_ops a b = (a < b)" "f_int rat_ops k = of_int k" for a b k
    by (simp_all add: rat_ops_def)
  show ?thesis
    by (simp add: time_str_def spec_time_str_def Let_def f trunc_rat_of_int
          trunc_rat_nonneg[OF seconds_nonneg] hours_of_day minutes_of_hour seconds_of_minute)
qed

lemma time_str_examples:
  "time_str rat_ops 100 = ''1m 40s''"
  "time_str rat_ops 90000 = ''1d 1h''"
  "time_str rat_ops 5400 = ''1h 30m''"
  "time_str rat_ops 7384 = ''2h 3m''"
  "time_str rat_ops 86400 = ''24h 0m''"
  "time_str rat_ops 3600 = ''60m 0s''"
  by (simp_all add: time_str_def rat_ops_def Let_def str_int_def str_nat.simps)

lemma cycle_single_plan:
  assumes e: "\<not> multi_tap s \<or> tap_locations s = []"
  shows "cycle F s ev =
           (case send_tap F s ev of
              Inl c \<Rightarrow> Inl c
            | Inr (s2, loc, xy, st) \<Rightarrow>
                (case f_sleep F (tap_interval s) of
                   Some e \<Rightarrow> Inl (e, s2)
                 | None \<Rightarrow>
                     Inr (s2, \<lparr>tapped = loc, sent = xy, shown = st,
                               slept = tap_interval s\<rparr>)))"
  by (simp add: cycle_def get_next_single[OF e])

lemma cycle_empty_plan:
  assumes e: "tap_locations s = []" and run: "cycle F s ev = Inr (s', out)"
  shows "tapped out = (self_x s, self_y s, tap_interval s) \<and> slept out = tap_interval s"
proof -
  have e': "\<not> multi_tap s \<or> tap_locations s = []" using e by simp
  from run obtain loc xy st where st: "send_tap F s ev = Inr (s', loc, xy, st)"
    and o: "out = \<lparr>tapped = loc, sent = xy, shown = st, slept = tap_interval s\<rparr>"
    by (auto simp: cycle_single_plan[OF e'] split: sum.splits option.splits)
  from send_tap_Inr[OF st] obtain s1 where "get_next_tap_location s = Inr (loc, s1)"
    by blast
  then have "loc = (self_x s, self_y s, tap_interval s)"
    by (auto simp: get_next_single[OF e'])
  with o show ?thesis by simp
qed


lemma send_tap_Inl_fields:
  assumes "send_tap F s ev = Inl (e, sc)"
  shows "tap_locations sc = tap_locations s \<and> tap_count s \<le> tap_count sc
       \<and> tap_count sc \<le> tap_count s + 1"
proof (cases "get_next_tap_location s")
  case (Inl a)
  with assms show ?thesis by (simp add: send_tap_def)
next
  case (Inr p)
  obtain loc s1 where p: "p = (loc, s1)" by (cases p)
  note f = get_next_fields(1,4)[OF Inr[unfolded p]]
  from assms have "sc = s1 \<or> sc = s1\<lparr>tap_count := tap_count s1 + 1\<rparr>"
    by (simp add: send_tap_def Inr p Let_def split: sum.splits if_splits)
  with f show ?thesis by auto
qed

lemma cycle_Inl_fields:
  assumes "cycle F s ev = Inl (e, sc)"
  shows "tap_locations sc = tap_locations s \<and> tap_count s \<le> tap_count sc
       \<and> tap_count sc \<le> tap_count s + 1"
proof (cases "multi_tap s")
  case False
  with assms have "send_tap F s ev = Inl (e, sc)
      \<or> (\<exists>loc xy st. send_tap F s ev = Inr (sc, loc, xy, st))"
    by (auto simp: cycle_def split: sum.splits prod.splits option.splits)
  then show ?thesis
  proof
    assume "send_tap F s ev = Inl (e, sc)"
    then show ?thesis by (rule send_tap_Inl_fields)
  next
    assume "\<exists>loc xy st. send_tap F s ev = Inr (sc, loc, xy, st)"
    then obtain loc xy st where st: "send_tap F s ev = Inr (sc, loc, xy, st)" by blast
    from send_tap_fields(1,10)[OF st] show ?thesis by simp
  qed
next
  case True
  show ?thesis
  proof (cases "get_next_tap_location s")
    case (Inl a)
    with assms True show ?thesis by (simp add: cycle_def)
  next
    case (Inr p)
    obtain loc s0 where p: "p = (loc, s0)" by (cases p)
    note f = get_next_fields(1,4)[OF Inr[unfolded p]]
    from assms True have "send_tap F s0 ev = Inl (e, sc)
        \<or> (\<exists>loc xy st. send_tap F s0 ev = Inr (sc, loc, xy, st))"
      by (auto simp: cycle_def Inr p split: sum.splits prod.splits option.splits)
    then show ?thesis
    proof
      assume "send_tap F s0 ev = Inl (e, sc)"
      from send_tap_Inl_fields[OF this] f show ?thesis by simp
    next
      assume "\<exists>loc xy st. send_tap F s0 ev = Inr (sc, loc, xy, st)"
      then obtain loc xy st where st: "send_tap F s0 ev = Inr (sc, loc, xy, st)" by blast
      from send_tap_fields(1,10)[OF st] f show ?thesis by simp
    qed
  qed
qed

lemma cycle_Inl_plan:
  assumes "cycle F s ev = Inl (e, sc)"
  shows "tap_locations sc = tap_locations s"
  using cycle_Inl_fields[OF assms] by simp

lemma stop_fields:
  "tap_locations (stop s) = tap_locations s" "self_x (stop s) = self_x s"
  "self_y (stop s) = self_y s" "tap_interval (stop s) = tap_interval s"
  "tap_count (stop s) = tap_count s" "total_taps (stop s) = total_taps s"
  "jitter (stop s) = jitter s" "start_time (stop s) = start_time s"
  "current_location_index (stop s) = current_location_index s"
  "multi_tap (stop s) = multi_tap s" "running (stop s) = False"
  by (simp_all add: stop_def)

lemma run_loop_empty_plan:
  assumes "tap_locations s = []" and "run_loop F et s evs = Some (r, sf, outs)"
  shows "tap_locations sf = []
       \<and> (\<forall>out \<in> set outs. tapped out = (self_x s, self_y s, tap_interval s)
                             \<and> slept out = tap_interval s)"
  using assms
proof (induction evs arbitrary: s r sf outs)
  case Nil
  then show ?case by (simp split: if_splits)
next
  case (Cons ev evs)
  show ?case
  proof (cases "running s")
    case False
    with Cons.prems show ?thesis by simp
  next
    case True
    show ?thesis
    proof (cases "cycle F s ev")
      case (Inl c)
      obtain e sc where c: "c = (e, sc)" by (cases c)
      from Cons.prems(2) True Inl c have "sf = sc" "outs = []" by simp_all
      with cycle_Inl_plan[OF Inl[unfolded c]] Cons.prems(1) show ?thesis by simp
    next
      case (Inr p)
      obtain s1 out where p: "p = (s1, out)" by (cases p)
      note run = Inr[unfolded p]
      note f = cycle_fields[OF run]
      note o = cycle_empty_plan[OF Cons.prems(1) run]
      let ?s2 = "if sigint ev then stop s1 else s1"
      have f2: "tap_locations ?s2 = []" "self_x ?s2 = self_x s" "self_y ?s2 = self_y s"
        "tap_interval ?s2 = tap_interval s"
        using f Cons.prems(1) by (simp_all add: stop_fields)
      show ?thesis
      proof (cases "goal_reached ?s2 \<or> duration_elapsed F et (check_clock ev)")
        case True
        with Cons.prems(2) \<open>running s\<close> run have "sf = ?s2" "outs = [out]"
          by (auto simp: Let_def split: if_splits)
        with f2 o show ?thesis by simp
      next
        case False
        with Cons.prems(2) \<open>running s\<close> run obtain outs' where
          rest: "run_loop F et ?s2 evs = Some (r, sf, outs')" and outs: "outs = out # outs'"
          by (auto simp: Let_def split: if_splits)
        from Cons.IH[OF f2(1) rest] f2 o outs show ?thesis by simp
      qed
    qed
  qed
qed








lemma ex_device_present: "check_adb_connection (DevicesOutput ex_device_list)"
  by (simp add: check_adb_connection_def ex_device_list_def sublist_code)

lemma ex_world_coords:
  "main_coords rat_ops ex_args (wm_main ex_world) = Inr (Some 540, Some 1152)"
  by (simp add: main_coords_def ex_args_def ex_world_def truthy_def rat_ops_def)

lemma ex_world_init:
  "init rat_ops (plan_rng ex_world) (wm_init ex_world) (Some 540) (Some 1152)
     (arg_interval ex_args) (arg_jitter ex_args) (\<not> arg_single_point ex_args)
     (arg_total_taps ex_args) = Inr ex_calibrated_tapper"
  by (simp add: init_explicit ex_args_def ex_calibrated_tapper_def)

lemma ex_world_start:
  "start rat_ops ex_calibrated_tapper (arg_duration ex_args) (run_world ex_world) =
     Some (Ended Cancelled [ex_out, ex_out]
             \<lparr>sum_taps = 2, sum_progress = Some 4, sum_elapsed = 1, sum_rate = 2\<rparr>,
           ex_interrupted_tapper)"
  by (simp add: start_def ex_device_present ex_world_def ex_args_def run_defs
        ex_event_def ex_sigint_event_def stop_def goal_reached_def duration_elapsed_def
        finalize_def rat_ops_def ex_out_def ex_interrupted_tapper_def
        ex_calibrated_tapper_def)

lemma ex_main_run:
  "main rat_ops ex_args ex_world =
     Some (0, Some (Ended Cancelled [ex_out, ex_out]
                      \<lparr>sum_taps = 2, sum_progress = Some 4, sum_elapsed = 1, sum_rate = 2\<rparr>,
                    ex_interrupted_tapper))"
  by (simp add: main_def ex_world_coords ex_world_init ex_world_start)

lemma start_Ended:
  assumes "start F s d env = Some (Ended r outs sm, sf)"
  shows "\<exists>et. run_loop F et
              (s\<lparr>running := True, tap_count := 0, start_time := Some (clock_start env)\<rparr>)
              (events env) = Some (r, sf, outs)"
  using assms
  by (auto simp: start_def Let_def split: if_splits option.splits)

lemma main_Ended:
  assumes "main F a w = Some (status, Some (rep, sf))"
      and "main_coords F a (wm_main w) = Inr (cx, cy)"
  shows "\<exists>t. init F (plan_rng w) (wm_init w) cx cy (arg_interval a) (arg_jitter a)
               (\<not> arg_single_point a) (arg_total_taps a) = Inr t
             \<and> start F t (arg_duration a) (run_world w) = Some (rep, sf)"
  using assms
  by (auto simp: main_def split: sum.splits option.splits)


section \<open>The claims\<close>

text \<open>
  C1 (the code departs from the claim).  In multi-point mode with a plan of at least one
  point, a pass of the loop calls \<^verbatim>\<open>get_next_tap_location\<close> twice: once in \<^verbatim>\<open>start\<close>,
  whose interval it sleeps for, and once in \<^verbatim>\<open>send_tap\<close>, whose point it taps.  So the
  pass sleeps for the interval of the point under the cursor and taps the point after it.
  On the plan of \<open>ex_tapper\<close> the first pass taps (540, 576), whose interval is 0.009, and
  sleeps for 0.008.
\<close>

theorem cycle_sleeps_for_one_point_and_taps_the_next:
  assumes "multi_tap s" and "tap_locations s \<noteq> []"
      and "current_location_index s < length (tap_locations s)"
      and "cycle F s ev = Inr (s', out)"
  shows "slept out = snd (snd (tap_locations s ! current_location_index s))
       \<and> tapped out =
           (Some (fst (tap_locations s ! ((current_location_index s + 1) mod length (tap_locations s)))),
            Some (fst (snd (tap_locations s ! ((current_location_index s + 1) mod length (tap_locations s))))),
            snd (snd (tap_locations s ! ((current_location_index s + 1) mod length (tap_locations s)))))"
  using cycle_multi_conj[OF assms] by simp

theorem cycle_sleeps_for_one_point_and_taps_the_next_witness:
  "init rat_ops ex_rng (WmSize 1080 1920) None None (8/1000) 8 True (Some 50) = Inr ex_tapper
   \<and> cycle rat_ops ex_tapper ex_event =
       Inr (ex_tapper\<lparr>current_location_index := 2, tap_count := 1\<rparr>,
            \<lparr>tapped = (Some 540, Some 576, 9/1000), sent = (537, 579), shown = None,
             slept = 8/1000\<rparr>)
   \<and> slept \<lparr>tapped = (Some 540, Some 576, 9/1000), sent = (537, 579), shown = None,
             slept = (8/1000 :: rat)\<rparr> = snd (snd (tap_locations ex_tapper ! 0))
   \<and> snd (snd (tapped \<lparr>tapped = (Some 540, Some 576, 9/1000), sent = (537, 579),
                         shown = None, slept = (8/1000 :: rat)\<rparr>)) = 9/1000
   \<and> slept \<lparr>tapped = (Some 540, Some 576, 9/1000), sent = (537, 579), shown = None,
             slept = (8/1000 :: rat)\<rparr> = 8/1000"
proof -
  have m: "multi_tap ex_tapper" and ne: "tap_locations ex_tapper \<noteq> []"
    and c: "current_location_index ex_tapper < length (tap_locations ex_tapper)"
    by (simp_all add: ex_tapper_def)
  from cycle_sleeps_for_one_point_and_taps_the_next[OF m ne c ex_cycle]
  show ?thesis using ex_init ex_cycle by (simp add: ex_tapper_def)
qed

text \<open>
  C2 (amended).  The counter is incremented inside the \<^verbatim>\<open>try\<close>, after the tap
  command: a pass whose tap command fails leaves \<^verbatim>\<open>tap_count\<close> as it was.  What
  holds is that a pass adds 1 to the counter when its tap succeeds and 0 when it fails;
  the last theorem is a pass with a failed tap on \<open>ex_tapper\<close>.
\<close>

theorem tap_count_counts_successful_taps:
  assumes "cycle F s ev = Inr (s', out)"
  shows "tap_count s' = tap_count s + (if tap_ok ev then 1 else 0)"
  using cycle_fields(10)[OF assms] .

theorem tap_count_counts_successful_taps_witness:
  "cycle rat_ops ex_tapper ex_event =
       Inr (ex_tapper\<lparr>current_location_index := 2, tap_count := 1\<rparr>,
            \<lparr>tapped = (Some 540, Some 576, 9/1000), sent = (537, 579), shown = None,
             slept = 8/1000\<rparr>)
   \<and> tap_ok ex_event
   \<and> tap_count (ex_tapper\<lparr>current_location_index := 2, tap_count := 1\<rparr>)
       = tap_count ex_tapper + 1"
  using tap_count_counts_successful_taps[OF ex_cycle] ex_cycle
  by (simp add: ex_event_def)

theorem failed_tap_is_not_counted:
  "tap_ok ex_failed_event = False
   \<and> cycle rat_ops ex_tapper ex_failed_event =
       Inr (ex_tapper\<lparr>current_location_index := 2\<rparr>,
            \<lparr>tapped = (Some 540, Some 576, 9/1000), sent = (537, 579), shown = None,
             slept = 8/1000\<rparr>)
   \<and> tap_count (ex_tapper\<lparr>current_location_index := 2\<rparr>) = tap_count ex_tapper
   \<and> tap_count (ex_tapper\<lparr>current_location_index := 2\<rparr>) \<noteq> tap_count ex_tapper + 1"
  using ex_failed_cycle by (simp add: ex_failed_event_def)

text \<open>
  C3 (the code departs from the claim).  Before the shuffle the plan has 46 points, not 45:
  one centre point, 8 inner, 12 middle, 17 outer (\<^verbatim>\<open>range(0, 360, 22)\<close> ends at 352),
  4 strategic and 4 random points.  The shuffle keeps the length.
\<close>

theorem plan_before_shuffle_has_46_points:
  "length (center_point F cx cy) = 1
   \<and> length (inner_ring F cx cy r) = 8
   \<and> length (middle_ring F cx cy r) = 12
   \<and> length (outer_ring F cx cy r) = 17
   \<and> length (strategic_points F cx cy r) = 4
   \<and> length (random_points F R cx cy r) = 4
   \<and> length (plan_before_shuffle F R w h) = 46
   \<and> length (tap_locations (generate_tap_locations F R s)) = 46"
  by (simp add: center_point_def inner_ring_def middle_ring_def outer_ring_def
        strategic_points_def random_points_def plan_before_shuffle_def
        generate_tap_locations_def length_ring length_py_range length_shuffle Let_def)

theorem plan_before_shuffle_has_46_points_witness:
  "length (outer_ring rat_ops 540 1152 384) = 17
   \<and> length (plan_before_shuffle rat_ops ex_rng 1080 1920) = 46"
  using plan_before_shuffle_has_46_points[of rat_ops 540 1152 384 ex_rng 1080 1920 ex_tapper]
  by simp

text \<open>
  C4.  A constructor that is given both coordinates queries no resolution and builds no
  plan: the tapper has an empty \<^verbatim>\<open>tap_locations\<close> and keeps the two coordinates and the
  base interval.  \<^verbatim>\<open>main\<close> on its calibrated path (no coordinates given, the resolution
  known) hands two coordinates to the constructor.  With an empty plan
  \<^verbatim>\<open>get_next_tap_location\<close> returns the fixed point and the base interval and changes
  nothing, whatever the mode; and in every run that \<^verbatim>\<open>main\<close> starts with two
  coordinates, each pass taps that point and sleeps for the base interval, and the plan is
  still empty at the end.
\<close>

theorem explicit_coordinates_give_one_fixed_point:
  "(\<exists>t. init F R reply (Some x) (Some y) iv j m g = Inr t \<and> tap_locations t = []
         \<and> self_x t = Some x \<and> self_y t = Some y \<and> tap_interval t = iv)
   \<and> (arg_karaa a \<and> arg_x a = None \<and> arg_y a = None \<longrightarrow>
        (\<exists>cx cy. main_coords F a (WmSize width height) = Inr (Some cx, Some cy)))
   \<and> (tap_locations s = [] \<and> get_next_tap_location s = Inr (loc, s1) \<longrightarrow>
        loc = (self_x s, self_y s, tap_interval s) \<and> s1 = s)
   \<and> (main_coords F a (wm_main w) = Inr (Some x, Some y)
       \<and> main F a w = Some (status, Some (Ended r outs sm, sf)) \<longrightarrow>
        tap_locations sf = []
        \<and> (\<forall>out \<in> set outs. tapped out = (Some x, Some y, arg_interval a)
                              \<and> slept out = arg_interval a))"
proof (intro conjI impI)
  show "\<exists>t. init F R reply (Some x) (Some y) iv j m g = Inr t \<and> tap_locations t = []
         \<and> self_x t = Some x \<and> self_y t = Some y \<and> tap_interval t = iv"
    by (simp add: init_explicit)
next
  assume "arg_karaa a \<and> arg_x a = None \<and> arg_y a = None"
  then show "\<exists>cx cy. main_coords F a (WmSize width height) = Inr (Some cx, Some cy)"
    by (simp add: main_coords_def truthy_def)
next
  assume h: "tap_locations s = [] \<and> get_next_tap_location s = Inr (loc, s1)"
  then have e: "\<not> multi_tap s \<or> tap_locations s = []" by simp
  have "get_next_tap_location s = Inr ((self_x s, self_y s, tap_interval s), s)"
    by (rule get_next_single[OF e])
  with h show "loc = (self_x s, self_y s, tap_interval s)" "s1 = s" by auto
next
  assume h: "main_coords F a (wm_main w) = Inr (Some x, Some y)
       \<and> main F a w = Some (status, Some (Ended r outs sm, sf))"
  let ?t = "\<lparr>self_x = Some x, self_y = Some y, tap_interval = arg_interval a,
              jitter = arg_jitter a, multi_tap = \<not> arg_single_point a,
              total_taps = arg_total_taps a, running = False, tap_count = 0,
              start_time = None, tap_locations = [], current_location_index = 0,
              screen_width = 0, screen_height = 0\<rparr>"
  from h main_Ended[of F a w status "Ended r outs sm" sf "Some x" "Some y"]
  have "start F ?t (arg_duration a) (run_world w) = Some (Ended r outs sm, sf)"
    by (simp add: init_explicit)
  from start_Ended[OF this] obtain et where
    rl: "run_loop F et
           (?t\<lparr>running := True, tap_count := 0,
                start_time := Some (clock_start (run_world w))\<rparr>)
           (events (run_world w)) = Some (r, sf, outs)"
    by blast
  have e: "tap_locations (?t\<lparr>running := True, tap_count := 0,
                start_time := Some (clock_start (run_world w))\<rparr>) = []"
    by simp
  from run_loop_empty_plan[OF e rl]
  show "tap_locations sf = []"
    "\<forall>out \<in> set outs. tapped out = (Some x, Some y, arg_interval a)
                        \<and> slept out = arg_interval a"
    by simp_all
qed

theorem explicit_coordinates_give_one_fixed_point_witness:
  "init rat_ops ex_rng WmFailed (Some 540) (Some 1152) (8/1000) 8 True (Some 50)
     = Inr ex_calibrated_tapper
   \<and> main_coords rat_ops ex_args (wm_main ex_world) = Inr (Some 540, Some 1152)
   \<and> main rat_ops ex_args ex_world =
       Some (0, Some (Ended Cancelled [ex_out, ex_out]
                        \<lparr>sum_taps = 2, sum_progress = Some 4, sum_elapsed = 1,
                         sum_rate = 2\<rparr>,
                      ex_interrupted_tapper))
   \<and> tap_locations ex_interrupted_tapper = []
   \<and> tapped ex_out = (Some 540, Some 1152, arg_interval ex_args)
   \<and> slept ex_out = arg_interval ex_args"
  using explicit_coordinates_give_one_fixed_point[of rat_ops ex_rng WmFailed 540 1152
          "8/1000" 8 True "Some 50" ex_args 1080 1920 ex_calibrated_tapper
          "(Some 540, Some 1152, 8/1000)" ex_calibrated_tapper ex_world 0 Cancelled
          "[ex_out, ex_out]"
          "\<lparr>sum_taps = 2, sum_progress = Some 4, sum_elapsed = 1, sum_rate = 2\<rparr>"
          ex_interrupted_tapper]
    ex_world_coords ex_main_run
  by (simp add: init_explicit ex_calibrated_tapper_def ex_args_def)

text \<open>
  C5 (the code departs from the claim).  \<^verbatim>\<open>get_screen_resolution\<close> tests for explicit
  coordinates after it has filled in the missing ones, so in multi-point mode the test
  always succeeds and the nine-point layout replaces the ring plan whenever the
  resolution is queried, also when no coordinate was given at all; then the layout is
  centred on the middle of the screen.  With both coordinates given the resolution is
  not queried and the tapper has no plan, neither the rings nor the nine points.
\<close>

theorem cross_layout_replaces_every_generated_plan:
  "(x = None \<or> y = None \<longrightarrow>
      (\<exists>s. init F R (WmSize w h) x y iv j True g = Inr s
         \<and> tap_locations s =
             cross_layout F (case x of None \<Rightarrow> w div 2 | Some v \<Rightarrow> v)
               (case y of None \<Rightarrow> h div 2 | Some v \<Rightarrow> v)
               (f_trunc F (f_mul F (f_int F h) (f_lit F (20/100))))
         \<and> length (tap_locations s) = 9))
   \<and> (\<exists>s. init F R reply (Some x') (Some y') iv j True g = Inr s \<and> tap_locations s = [])"
proof (intro conjI impI)
  assume miss: "x = None \<or> y = None"
  let ?s = "\<lparr>self_x = x, self_y = y, tap_interval = iv, jitter = j,
            multi_tap = True, total_taps = g, running = False, tap_count = 0,
            start_time = None, tap_locations = [], current_location_index = 0,
            screen_width = 0, screen_height = 0\<rparr>"
  from get_screen_resolution_multi[of ?s F R w h] obtain s' where
    "get_screen_resolution F R (WmSize w h) ?s = Inr s'"
    "tap_locations s' =
       cross_layout F (case x of None \<Rightarrow> w div 2 | Some v \<Rightarrow> v)
         (case y of None \<Rightarrow> h div 2 | Some v \<Rightarrow> v)
         (f_trunc F (f_mul F (f_int F h) (f_lit F (20/100))))"
    by auto
  with miss show "\<exists>s. init F R (WmSize w h) x y iv j True g = Inr s
         \<and> tap_locations s =
             cross_layout F (case x of None \<Rightarrow> w div 2 | Some v \<Rightarrow> v)
               (case y of None \<Rightarrow> h div 2 | Some v \<Rightarrow> v)
               (f_trunc F (f_mul F (f_int F h) (f_lit F (20/100))))
         \<and> length (tap_locations s) = 9"
    by (simp add: init_def cross_layout_def Let_def)
next
  show "\<exists>s. init F R reply (Some x') (Some y') iv j True g = Inr s \<and> tap_locations s = []"
    by (simp add: init_explicit)
qed

theorem cross_layout_replaces_every_generated_plan_witness:
  "init rat_ops ex_rng (WmSize 1080 1920) None None (8/1000) 8 True (Some 50) = Inr ex_tapper
   \<and> tap_locations ex_tapper = cross_layout rat_ops 540 960 384
   \<and> length (tap_locations ex_tapper) = 9
   \<and> init rat_ops ex_rng (WmSize 1080 1920) (Some 540) (Some 1152) (8/1000) 8 True (Some 50)
       = Inr ex_calibrated_tapper
   \<and> tap_locations ex_calibrated_tapper = []"
  using cross_layout_replaces_every_generated_plan[of None None rat_ops ex_rng 1080 1920
          "8/1000" 8 "Some 50" "WmSize 1080 1920" 540 1152]
    ex_init
  by (simp add: init_explicit ex_calibrated_tapper_def rat_ops_def cross_layout_def Let_def)




text \<open>
  C7.  \<^verbatim>\<open>add_jitter\<close> returns a value for every non-negative radius, and whatever
  it returns lies in \<open>[coord - jitter, coord + jitter]\<close>.  In a pass of the loop, the
  x sent to the device is \<^verbatim>\<open>add_jitter\<close> of the tapped point's x with the pass's
  first draw, the y is \<^verbatim>\<open>add_jitter\<close> of its y with the pass's second draw, and both
  lie within the radius; the tapper stores no offset between passes.
\<close>

theorem jitter_stays_within_radius:
  "(0 \<le> jitter s \<longrightarrow> (\<exists>v. add_jitter s (Some c) raw = Inr v))
   \<and> (add_jitter s (Some c) raw = Inr v \<longrightarrow> c - jitter s \<le> v \<and> v \<le> c + jitter s)
   \<and> (cycle F s ev = Inr (s', out) \<longrightarrow>
        (\<exists>bx by. fst (tapped out) = Some bx \<and> fst (snd (tapped out)) = Some by
           \<and> add_jitter s (Some bx) (draw_x ev) = Inr (fst (sent out))
           \<and> add_jitter s (Some by) (draw_y ev) = Inr (snd (sent out))
           \<and> bx - jitter s \<le> fst (sent out) \<and> fst (sent out) \<le> bx + jitter s
           \<and> by - jitter s \<le> snd (sent out) \<and> snd (sent out) \<le> by + jitter s))"
proof (intro conjI impI)
  assume "0 \<le> jitter s"
  then show "\<exists>v. add_jitter s (Some c) raw = Inr v"
    by (simp add: add_jitter_Some)
next
  assume "add_jitter s (Some c) raw = Inr v"
  then show "c - jitter s \<le> v" "v \<le> c + jitter s"
    using add_jitter_bounds by blast+
next
  assume run: "cycle F s ev = Inr (s', out)"
  note a = cycle_sent[OF run]
  from a add_jitter_Inr_Some obtain bx where bx: "fst (tapped out) = Some bx" by blast
  from a add_jitter_Inr_Some obtain "by" where by': "fst (snd (tapped out)) = Some by" by blast
  from a bx by' add_jitter_bounds[of s bx "draw_x ev" "fst (sent out)"]
    add_jitter_bounds[of s "by" "draw_y ev" "snd (sent out)"]
  show "\<exists>bx by. fst (tapped out) = Some bx \<and> fst (snd (tapped out)) = Some by
           \<and> add_jitter s (Some bx) (draw_x ev) = Inr (fst (sent out))
           \<and> add_jitter s (Some by) (draw_y ev) = Inr (snd (sent out))
           \<and> bx - jitter s \<le> fst (sent out) \<and> fst (sent out) \<le> bx + jitter s
           \<and> by - jitter s \<le> snd (sent out) \<and> snd (sent out) \<le> by + jitter s"
    by simp
qed

theorem jitter_stays_within_radius_witness:
  "0 \<le> jitter ex_tapper
   \<and> add_jitter ex_tapper (Some 540) 5 = Inr 537
   \<and> 540 - jitter ex_tapper \<le> 537 \<and> 537 \<le> 540 + jitter ex_tapper
   \<and> cycle rat_ops ex_tapper ex_event =
       Inr (ex_tapper\<lparr>current_location_index := 2, tap_count := 1\<rparr>,
            \<lparr>tapped = (Some 540, Some 576, 9/1000), sent = (537, 579), shown = None,
             slept = 8/1000\<rparr>)
   \<and> add_jitter ex_tapper (Some 540) (draw_x ex_event) = Inr 537
   \<and> add_jitter ex_tapper (Some 576) (draw_y ex_event) = Inr 579"
  using jitter_stays_within_radius[of ex_tapper 540 5 537 rat_ops ex_event
          "ex_tapper\<lparr>current_location_index := 2, tap_count := 1\<rparr>"
          "\<lparr>tapped = (Some 540, Some 576, 9/1000), sent = (537, 579), shown = None,
             slept = 8/1000\<rparr>"]
    ex_cycle
  by (simp add: ex_tapper_def ex_event_def add_jitter_def randint_def randbelow_def)

text \<open>
  C8.  With floats read as exact rationals, the time string that \<^verbatim>\<open>display_stats\<close>
  builds is the one the specification describes: above 86400 seconds the whole days and
  the hours of the last day, above 3600 seconds the whole hours and the minutes of the
  last hour, otherwise the whole minutes and the seconds of the last minute.  100 seconds
  give 1m 40s, 90000 give 1d 1h, 5400 give 1h 30m; the bounds themselves fall in the
  lower bucket, so 86400 gives 24h 0m and 3600 gives 60m 0s.
\<close>

theorem time_str_follows_the_buckets:
  "time_str rat_ops s = spec_time_str s
   \<and> time_str rat_ops 100 = ''1m 40s''
   \<and> time_str rat_ops 90000 = ''1d 1h''
   \<and> time_str rat_ops 5400 = ''1h 30m''
   \<and> time_str rat_ops 86400 = ''24h 0m''
   \<and> time_str rat_ops 3600 = ''60m 0s''"
  by (intro conjI time_str_rat time_str_examples)

theorem time_str_follows_the_buckets_witness:
  "time_str rat_ops 7384 = ''2h 3m'' \<and> spec_time_str 7384 = ''2h 3m''"
  using time_str_follows_the_buckets[of 7384] time_str_examples(4) by simp

text \<open>
  C9.  In multi-point mode with a non-empty plan and the cursor inside it, every call of
  \<^verbatim>\<open>get_next_tap_location\<close> moves the cursor one place on, modulo the length of the
  plan; a pass of the loop makes two such calls, so it moves the cursor two places on,
  modulo the length, and leaves the plan as it is.  After as many passes as the plan has
  points the cursor is back where it started.
\<close>

theorem cursor_returns_after_one_round:
  assumes "multi_tap s" and "tap_locations s \<noteq> []"
      and "current_location_index s < length (tap_locations s)"
      and "length evs = length (tap_locations s)"
  shows "(\<forall>loc s1. get_next_tap_location s = Inr (loc, s1) \<longrightarrow>
            current_location_index s1 =
              (current_location_index s + 1) mod length (tap_locations s))
       \<and> (\<forall>ev s1 out. cycle F s ev = Inr (s1, out) \<longrightarrow>
            current_location_index s1 =
              (current_location_index s + 2) mod length (tap_locations s)
            \<and> tap_locations s1 = tap_locations s)
       \<and> (\<forall>s'. dispatch_cycles F s evs = Inr s' \<longrightarrow>
            current_location_index s' = current_location_index s
            \<and> tap_locations s' = tap_locations s)"
proof (intro conjI allI impI)
  fix loc s1 assume "get_next_tap_location s = Inr (loc, s1)"
  with get_next_multi[OF assms(1-3)]
  show "current_location_index s1 =
          (current_location_index s + 1) mod length (tap_locations s)"
    by auto
next
  fix ev s1 out assume run: "cycle F s ev = Inr (s1, out)"
  from cycle_multi_conj[OF assms(1-3) run]
  show "current_location_index s1 =
          (current_location_index s + 2) mod length (tap_locations s)"
    by simp
  from cycle_fields(1)[OF run] show "tap_locations s1 = tap_locations s" .
next
  fix s' assume run: "dispatch_cycles F s evs = Inr s'"
  from dispatch_cycles_cursor[OF assms(1-3) run] assms(3,4)
  show "current_location_index s' = current_location_index s"
    by simp
  from dispatch_cycles_cursor[OF assms(1-3) run]
  show "tap_locations s' = tap_locations s" by simp
qed

theorem cursor_returns_after_one_round_witness:
  "multi_tap ex_tapper
   \<and> length ex_round = length (tap_locations ex_tapper)
   \<and> dispatch_cycles rat_ops ex_tapper ex_round = Inr (ex_tapper\<lparr>tap_count := 7\<rparr>)
   \<and> current_location_index (ex_tapper\<lparr>tap_count := 7\<rparr>) = current_location_index ex_tapper
   \<and> tap_locations (ex_tapper\<lparr>tap_count := 7\<rparr>) = tap_locations ex_tapper"
proof -
  have m: "multi_tap ex_tapper" and ne: "tap_locations ex_tapper \<noteq> []"
    and c: "current_location_index ex_tapper < length (tap_locations ex_tapper)"
    and l: "length ex_round = length (tap_locations ex_tapper)"
    by (simp_all add: ex_tapper_def ex_round_def)
  from cursor_returns_after_one_round[OF m ne c l, of rat_ops] ex_round_run m l
  show ?thesis by simp
qed

text \<open>
  C10 (amended).  When the device check fails, \<^verbatim>\<open>start\<close> returns at once: it reports
  nothing, runs no pass and leaves the tapper as it was, so a fresh tapper keeps its
  count and its cursor at 0.  \<^verbatim>\<open>main\<close> then returns as after any other run, and the
  process ends with status 0; the last theorem is such an execution.
\<close>

theorem no_device_no_run:
  assumes "\<not> check_adb_connection (devices (run_world w))"
  shows "start F s d (run_world w) = Some (NotStarted, s)
       \<and> (\<forall>cx cy t.
            main_coords F a (wm_main w) = Inr (cx, cy)
            \<and> init F (plan_rng w) (wm_init w) cx cy (arg_interval a) (arg_jitter a)
                (\<not> arg_single_point a) (arg_total_taps a) = Inr t
            \<longrightarrow> main F a w = Some (0, Some (NotStarted, t))
                \<and> tap_count t = 0 \<and> current_location_index t = 0)"
proof (intro conjI allI impI)
  have st: "start F s' d' (run_world w) = Some (NotStarted, s')" for s' d'
    using assms by (simp add: start_def)
  show "start F s d (run_world w) = Some (NotStarted, s)" by (rule st)
  fix cx cy t
  assume h: "main_coords F a (wm_main w) = Inr (cx, cy)
            \<and> init F (plan_rng w) (wm_init w) cx cy (arg_interval a) (arg_jitter a)
                (\<not> arg_single_point a) (arg_total_taps a) = Inr t"
  then show "main F a w = Some (0, Some (NotStarted, t))"
    by (simp add: main_def st)
  from h have "init F (plan_rng w) (wm_init w) cx cy (arg_interval a) (arg_jitter a)
                (\<not> arg_single_point a) (arg_total_taps a) = Inr t"
    by simp
  from init_fresh[OF this] show "tap_count t = 0" "current_location_index t = 0"
    by simp_all
qed

theorem no_device_no_run_witness:
  "start rat_ops ex_calibrated_tapper None (run_world ex_no_device_world)
     = Some (NotStarted, ex_calibrated_tapper)
   \<and> main rat_ops ex_args ex_no_device_world = Some (0, Some (NotStarted, ex_calibrated_tapper))
   \<and> tap_count ex_calibrated_tapper = 0"
  using no_device_no_run[OF ex_no_device, of rat_ops ex_calibrated_tapper None ex_args]
    ex_main_coords ex_main_init
  by simp

theorem no_device_exits_with_status_zero:
  "check_adb_connection (devices (run_world ex_no_device_world)) = False
   \<and> main rat_ops ex_args ex_no_device_world = Some (0, Some (NotStarted, ex_calibrated_tapper))"
  using ex_no_device ex_main_coords ex_main_init
  by (simp add: main_def start_def)

end
